theory Spec2Isabelle
  imports Complex_Main
begin

section \<open>Python text primitives\<close>

text \<open>
  Python \<open>str\<close> values are modelled as HOL strings. Over the code points a HOL \<open>char\<close>
  holds, the regex class \<open>\d\<close> is exactly the ten ASCII digits; text with code points
  beyond them is outside this model.
\<close>

definition is_digit :: "char \<Rightarrow> bool" where
  "is_digit c \<longleftrightarrow> c \<in> set ''0123456789''"

definition digit_char :: "nat \<Rightarrow> char" where
  "digit_char d = ''0123456789'' ! d"

definition digit_value :: "char \<Rightarrow> nat" where
  "digit_value c = of_char c - 48"

text \<open>\<open>str(n)\<close> for a non-negative integer: decimal digits, no padding.\<close>

fun str_nat :: "nat \<Rightarrow> string" where
  "str_nat n = (if n < 10 then [digit_char n] else str_nat (n div 10) @ [digit_char (n mod 10)])"

declare str_nat.simps [simp del]

text \<open>\<open>int(s)\<close> for a string of decimal digits.\<close>

definition int_of_digits :: "string \<Rightarrow> nat" where
  "int_of_digits ds = foldl (\<lambda>acc c. 10 * acc + digit_value c) 0 ds"

text \<open>The format specification \<open>{n:02d}\<close>: at least two digits, padded with zeros.\<close>

definition fmt_02d :: "nat \<Rightarrow> string" where
  "fmt_02d n = (if n < 10 then CHR ''0'' # str_nat n else str_nat n)"

section \<open>Regex building blocks\<close>

text \<open>
  A matcher takes the text at the current position and returns what is left after the
  match, or \<open>None\<close>. \<open>orelse\<close> is the backtracking choice of the regex engine: the
  second alternative is tried only when the first one, together with everything after it,
  has failed.
\<close>

fun lit :: "char \<Rightarrow> string \<Rightarrow> string option" where
  "lit c [] = None"
| "lit c (x # r) = (if x = c then Some r else None)"

fun digits_2 :: "string \<Rightarrow> (string \<times> string) option" where
  "digits_2 (a # b # r) = (if is_digit a \<and> is_digit b then Some ([a, b], r) else None)"
| "digits_2 _ = None"

definition orelse :: "'a option \<Rightarrow> 'a option \<Rightarrow> 'a option" where
  "orelse a b = (case a of Some x \<Rightarrow> Some x | None \<Rightarrow> b)"

section \<open>Synthesize: the timestamp rewrite (generate\_study\_notes.py, add\_youtube\_timestamps)\<close>

text \<open>
  The pattern \<open>\[(\d{1,2}):(\d{2})(?::(\d{2}))?\]\<close>. A match carries the three groups,
  the third being \<open>None\<close> when the optional part did not take part.
\<close>

type_synonym ts_groups = "string \<times> string \<times> string option"

text \<open>From after group 2: \<open>(?::(\d{2}))?\]\<close>, the optional part tried first.\<close>

definition ts_tail :: "string \<Rightarrow> string \<Rightarrow> string \<Rightarrow> (ts_groups \<times> string) option" where
  "ts_tail g1 g2 r =
     orelse
       (case lit (CHR '':'') r of None \<Rightarrow> None | Some r1 \<Rightarrow>
          (case digits_2 r1 of None \<Rightarrow> None | Some (g3, r2) \<Rightarrow>
             (case lit (CHR '']'') r2 of None \<Rightarrow> None
              | Some r3 \<Rightarrow> Some ((g1, g2, Some g3), r3))))
       (case lit (CHR '']'') r of None \<Rightarrow> None | Some r3 \<Rightarrow> Some ((g1, g2, None), r3))"

text \<open>From after group 1: \<open>:(\d{2})\<close> and the tail.\<close>

definition ts_after_g1 :: "string \<Rightarrow> string \<Rightarrow> (ts_groups \<times> string) option" where
  "ts_after_g1 g1 r =
     (case lit (CHR '':'') r of None \<Rightarrow> None | Some r1 \<Rightarrow>
        (case digits_2 r1 of None \<Rightarrow> None | Some (g2, r2) \<Rightarrow> ts_tail g1 g2 r2))"

text \<open>Group 1 is \<open>\d{1,2}\<close>, greedy: two digits are tried before one.\<close>

fun ts_g1 :: "string \<Rightarrow> (ts_groups \<times> string) option" where
  "ts_g1 (a # b # r) =
     (if is_digit a \<and> is_digit b then orelse (ts_after_g1 [a, b] r) (ts_after_g1 [a] (b # r))
      else if is_digit a then ts_after_g1 [a] (b # r)
      else None)"
| "ts_g1 [a] = (if is_digit a then ts_after_g1 [a] [] else None)"
| "ts_g1 [] = None"

definition match_timestamp :: "string \<Rightarrow> (ts_groups \<times> string) option" where
  "match_timestamp s = (case lit (CHR ''['') s of None \<Rightarrow> None | Some r \<Rightarrow> ts_g1 r)"

text \<open>\<open>replace_timestamp\<close>: the replacement text for one match.\<close>

definition replace_timestamp :: "string \<Rightarrow> ts_groups \<Rightarrow> string" where
  "replace_timestamp youtube_url m =
     (case m of (g1, g2, g3) \<Rightarrow>
        (let (total_seconds, display_time) =
           (case g3 of
              Some g3' \<Rightarrow>
                (let hours = int_of_digits g1; minutes = int_of_digits g2;
                     seconds = int_of_digits g3'
                 in (hours * 3600 + minutes * 60 + seconds,
                     str_nat hours @ '':'' @ fmt_02d minutes @ '':'' @ fmt_02d seconds))
            | None \<Rightarrow>
                (let minutes = int_of_digits g1; seconds = int_of_digits g2
                 in (minutes * 60 + seconds, str_nat minutes @ '':'' @ fmt_02d seconds)));
           timestamp_link = youtube_url @ ''?t='' @ str_nat total_seconds
         in ''['' @ display_time @ ''](''  @ timestamp_link @ '')''))"

lemma lit_length: "lit c s = Some r \<Longrightarrow> length s = Suc (length r)"
  by (cases s) (auto split: if_splits)

lemma digits_2_length: "digits_2 s = Some (g, r) \<Longrightarrow> length r < length s"
  by (cases s rule: digits_2.cases) (auto split: if_splits)

lemma ts_tail_length: "ts_tail g1 g2 s = Some (m, r) \<Longrightarrow> length r < length s"
  by (auto simp: ts_tail_def orelse_def split: option.splits dest!: lit_length digits_2_length)

lemma ts_after_g1_length: "ts_after_g1 g1 s = Some (m, r) \<Longrightarrow> length r < length s"
  by (auto simp: ts_after_g1_def split: option.splits dest!: lit_length digits_2_length ts_tail_length)

lemma ts_g1_length: "ts_g1 s = Some (m, r) \<Longrightarrow> length r < length s"
  by (cases s rule: ts_g1.cases)
     (auto simp: orelse_def split: if_splits option.splits dest!: ts_after_g1_length)

lemma match_timestamp_length: "match_timestamp s = Some (m, r) \<Longrightarrow> length r < length s"
  by (auto simp: match_timestamp_def split: option.splits dest!: lit_length ts_g1_length)

text \<open>
  \<open>re.sub(timestamp_pattern, replace_timestamp, markdown_text)\<close>: the text is scanned from
  the left; where the pattern matches, the replacement is emitted and the scan goes on
  after the match; elsewhere the character is copied.
\<close>

function add_youtube_timestamps :: "string \<Rightarrow> string \<Rightarrow> string" where
  "add_youtube_timestamps [] youtube_url = []"
| "add_youtube_timestamps (c # cs) youtube_url =
     (case match_timestamp (c # cs) of
        Some (m, rest) \<Rightarrow> replace_timestamp youtube_url m @ add_youtube_timestamps rest youtube_url
      | None \<Rightarrow> c # add_youtube_timestamps cs youtube_url)"
  by pat_completeness auto
termination
  by (relation "measure (\<lambda>(s, u). length s)") (auto dest: match_timestamp_length)

section \<open>Python values and dicts\<close>

text \<open>
  The values the task dicts hold: \<open>None\<close>, a string, or an integer (only \<open>note_id\<close>).
  A dict literal is the list of its items; \<open>d.get(k)\<close> is \<open>dict_get\<close> and \<open>d.get(k, v)\<close> is
  \<open>dict_get_default\<close>.
\<close>

datatype pyval = PNone | PStr string | PInt int

type_synonym pydict = "(string \<times> pyval) list"

definition dict_get :: "pydict \<Rightarrow> string \<Rightarrow> pyval" where
  "dict_get d k = (case map_of d k of None \<Rightarrow> PNone | Some v \<Rightarrow> v)"

definition dict_get_default :: "pydict \<Rightarrow> string \<Rightarrow> pyval \<Rightarrow> pyval" where
  "dict_get_default d k v0 = (case map_of d k of None \<Rightarrow> v0 | Some v \<Rightarrow> v)"

text \<open>Truth value of \<open>if v:\<close> and \<open>not v\<close>.\<close>

fun truthy :: "pyval \<Rightarrow> bool" where
  "truthy PNone = False"
| "truthy (PStr s) = (s \<noteq> [])"
| "truthy (PInt i) = (i \<noteq> 0)"

definition str_int :: "int \<Rightarrow> string" where
  "str_int i = (if i < 0 then CHR ''-'' # str_nat (nat (- i)) else str_nat (nat i))"

text \<open>What an f-string prints for a value.\<close>

fun py_str :: "pyval \<Rightarrow> string" where
  "py_str PNone = ''None''"
| "py_str (PStr s) = s"
| "py_str (PInt i) = str_int i"

section \<open>The Job Record (database/models.py, class Note)\<close>

text \<open>
  The \<open>status\<close> column holds one of the four literals the code writes (\<open>"pending"\<close>,
  \<open>"processing"\<close>, \<open>"failed"\<close>, \<open>"completed"\<close>), the values of the enum \<open>Status\<close> in
  api/models.py. The columns \<open>id\<close> and \<open>note\<close> are \<open>id_col\<close> and \<open>note_col\<close> here.
  \<open>updated_at\<close> is left out: nothing reads it.
\<close>

datatype Status = PENDING | PROCESSING | FAILED | COMPLETED

record Note =
  id_col :: int
  youtube_url :: string
  task_id :: "string option"
  status :: Status
  audio_id :: "string option"
  audio_path :: "string option"
  error :: "string option"
  transcription :: "string option"
  note_col :: "string option"
  created_at :: nat

text \<open>
  The table is the list of its rows in insertion order. A session's \<open>commit\<close> of a changed
  row object writes that row back.
\<close>

type_synonym db = "Note list"

text \<open>\<open>db.query(Note).filter(Note.id == i).first()\<close>\<close>

definition query_id :: "db \<Rightarrow> int \<Rightarrow> Note option" where
  "query_id d i = find (\<lambda>n. id_col n = i) d"

text \<open>The same with the id read from a dict: no row has an id that is not an integer.\<close>

fun query_pyid :: "db \<Rightarrow> pyval \<Rightarrow> Note option" where
  "query_pyid d (PInt i) = query_id d i"
| "query_pyid d _ = None"

definition commit :: "Note \<Rightarrow> db \<Rightarrow> db" where
  "commit n d = map (\<lambda>r. if id_col r = id_col n then n else r) d"

text \<open>
  A value assigned to a nullable text column, as it reads back: SQLite keeps an integer
  given to a text column as its decimal text.
\<close>

fun to_column :: "pyval \<Rightarrow> string option" where
  "to_column PNone = None"
| "to_column (PStr s) = Some s"
| "to_column (PInt i) = Some (str_int i)"

text \<open>Truth value of a nullable text column read back (\<open>if note.note:\<close>).\<close>

fun truthy_col :: "string option \<Rightarrow> bool" where
  "truthy_col None = False"
| "truthy_col (Some s) = (s \<noteq> [])"

section \<open>The outside world of a task run\<close>

text \<open>
  A Python \<open>float\<close>: a finite number by its exact value (every finite float is a rational
  number), negative zero on its own, the two infinities and not-a-number.
\<close>

datatype pyfloat = Finite rat | Neg_zero | Inf | Neg_inf | Nan

text \<open>A segment of the speech-to-text answer: \<open>seg.start\<close>, \<open>seg.end\<close>, \<open>seg.text\<close>.\<close>

record segment =
  seg_start :: pyfloat
  seg_end :: pyfloat
  seg_text :: string

text \<open>
  The answer of \<open>client.audio.transcriptions.create\<close>: \<open>segments\<close> is empty when the
  attribute is missing or empty, \<open>text_attr\<close> is \<open>transcript.text\<close> (or \<open>str(transcript)\<close>
  when there is no such attribute).
\<close>

record transcript =
  segments :: "segment list"
  text_attr :: string

text \<open>The answer of \<open>model.generate_content\<close>: its text and the block reason, if any.\<close>

record gemini_response =
  response_text :: string
  block_reason :: "string option"

text \<open>
  Everything a task run reads from outside the database. A provider call either raises
  (\<open>Inl\<close> of the exception's \<open>str\<close>) or answers, and so does \<open>Path(p).exists()\<close>: it
  answers whether the file is there, or raises the \<open>OSError\<close> of the \<open>stat\<close> call (a name
  too long, a directory that may not be searched). Exceptions of the database session
  itself are not modelled.
\<close>

record world =
  uuid4 :: string
  ydl_download :: "string option"
  path_exists :: "string \<Rightarrow> string + bool"
  whisper :: "string + transcript"
  gemini :: "string + gemini_response"

text \<open>A task body returns a dict or raises; the string is \<open>str(e)\<close>.\<close>

datatype task_result = Returned pydict | Raised string

section \<open>The exception handler shared by the three tasks\<close>

text \<open>
  Each task ends in the same handler, with its own message prefix:
  \<^verbatim>\<open>
  retry_count = self.request.retries
  if retry_count >= 2:
      note = db.query(Note).filter(Note.id == note_id).first()
      if note:
          note.status = "failed"
          note.error = f"<prefix> failed after {retry_count + 1} attempts: {str(e)}"
          db.commit()
  raise
  \<close>
  It returns the states it commits.
\<close>

definition on_exception :: "string \<Rightarrow> nat \<Rightarrow> string \<Rightarrow> pyval \<Rightarrow> db \<Rightarrow> db list" where
  "on_exception prefix retry_count e note_id d =
     (if retry_count \<ge> 2 then
        (case query_pyid d note_id of
           None \<Rightarrow> []
         | Some n \<Rightarrow>
             [commit (n\<lparr>status := FAILED,
                        error := Some (prefix @ '' failed after '' @ str_nat (retry_count + 1)
                                       @ '' attempts: '' @ e)\<rparr>) d])
      else [])"

section \<open>Acquire (workers/download\_audio.py)\<close>

definition download_audio ::
  "nat \<Rightarrow> world \<Rightarrow> string \<Rightarrow> int \<Rightarrow> db \<Rightarrow> task_result \<times> db list" where
  "download_audio retries w youtube_link note_id d =
     (case query_id d note_id of
        None \<Rightarrow>
          (Returned [(''error'', PStr (''Note with id '' @ str_int note_id @ '' not found'')),
                     (''note_id'', PInt note_id)], [])
      | Some n \<Rightarrow>
          (let n1 = n\<lparr>status := PROCESSING\<rparr>; d1 = commit n1 d
           in case ydl_download w of
                None \<Rightarrow>
                  (let audio_id' = uuid4 w;
                       output_file = ''media/'' @ audio_id' @ ''.mp3'';
                       d2 = commit (n1\<lparr>audio_id := Some audio_id', audio_path := Some output_file,
                                        status := PROCESSING\<rparr>) d1
                   in (Returned [(''note_id'', PInt note_id), (''audio_id'', PStr audio_id'),
                                 (''audio_path'', PStr output_file),
                                 (''youtube_link'', PStr youtube_link)],
                       [d1, d2]))
              | Some e \<Rightarrow>
                  (Raised e, d1 # on_exception ''Download'' retries e (PInt note_id) d1)))"

section \<open>Transcribe (workers/translate\_audio\_to\_text.py)\<close>

text \<open>
  \<open>not audio_path or not Path(audio_path).exists()\<close>: the test raises when \<open>exists\<close>
  does, and \<open>Path\<close> of a value that is no string raises a \<open>TypeError\<close>.
\<close>

fun audio_missing :: "world \<Rightarrow> pyval \<Rightarrow> string + bool" where
  "audio_missing w PNone = Inr True"
| "audio_missing w (PStr p) =
     (if p = [] then Inr True
      else (case path_exists w p of Inl e \<Rightarrow> Inl e | Inr there \<Rightarrow> Inr (\<not> there)))"
| "audio_missing w (PInt i) =
     (if i = 0 then Inr True else Inl ''expected str, bytes or os.PathLike object, not int'')"

text \<open>The integer nearest to a number that is not negative, a tie going to the even one.\<close>

definition round_half_even :: "rat \<Rightarrow> nat" where
  "round_half_even q =
     (let f = nat \<lfloor>q\<rfloor>; r = q - of_nat f
      in if r < 1 / 2 then f else if 1 / 2 < r then Suc f else if even f then f else Suc f)"

text \<open>The digits of \<open>n\<close> hundredths: the whole part, the point and two decimals.\<close>

definition fixed_2 :: "nat \<Rightarrow> string" where
  "fixed_2 n = str_nat (n div 100) @ ''.'' @ [digit_char (n mod 100 div 10), digit_char (n mod 10)]"

text \<open>
  \<open>{x:.2f}\<close>: the sign when the sign bit is set, then the magnitude rounded to the nearest
  hundredth (the exact value is rounded, ties to even); the special values by name.
\<close>

fun fmt_2f :: "pyfloat \<Rightarrow> string" where
  "fmt_2f (Finite x) = (if x < 0 then ''-'' else []) @ fixed_2 (round_half_even (\<bar>x\<bar> * 100))"
| "fmt_2f Neg_zero = ''-0.00''"
| "fmt_2f Inf = ''inf''"
| "fmt_2f Neg_inf = ''-inf''"
| "fmt_2f Nan = ''nan''"

text \<open>One line of the canonical format: \<open>f"[{seg.start:.2f}s -> {seg.end:.2f}s] {seg.text}"\<close>.\<close>

definition transcription_line :: "segment \<Rightarrow> string" where
  "transcription_line seg =
     ''['' @ fmt_2f (seg_start seg) @ ''s -> '' @ fmt_2f (seg_end seg) @ ''s] '' @ seg_text seg"

text \<open>\<open>sep.join(lines)\<close>\<close>

fun join :: "string \<Rightarrow> string list \<Rightarrow> string" where
  "join sep [] = []"
| "join sep [l] = l"
| "join sep (l # ls) = l @ sep @ join sep ls"

definition newline :: char where
  "newline = CHR 0x0A"

definition transcription_of :: "transcript \<Rightarrow> string" where
  "transcription_of t =
     (if segments t \<noteq> [] then join [newline] (map transcription_line (segments t))
      else text_attr t)"

definition translate_audio_to_text ::
  "nat \<Rightarrow> world \<Rightarrow> pydict \<Rightarrow> db \<Rightarrow> task_result \<times> db list" where
  "translate_audio_to_text retries w audio_data d =
     (let note_id = dict_get audio_data ''note_id'';
          audio_path' = dict_get audio_data ''audio_path'';
          audio_id' = dict_get audio_data ''audio_id''
      in case query_pyid d note_id of
           None \<Rightarrow>
             (Returned [(''note_id'', note_id), (''transcription'', PNone),
                        (''error'', PStr (''Note with id '' @ py_str note_id @ '' not found''))],
              [])
         | Some n \<Rightarrow>
             (case audio_missing w audio_path' of
                Inl e \<Rightarrow> (Raised e, on_exception ''Transcription'' retries e note_id d)
              | Inr True \<Rightarrow>
                  (let error_msg = dict_get_default audio_data ''error'' (PStr ''Audio file not found'');
                       d1 = commit (n\<lparr>status := FAILED\<rparr>) d
                   in (Returned [(''note_id'', note_id), (''audio_id'', audio_id'),
                                 (''transcription'', PNone), (''error'', error_msg)],
                       [d1]))
              | Inr False \<Rightarrow>
                  (case whisper w of
                     Inl e \<Rightarrow> (Raised e, on_exception ''Transcription'' retries e note_id d)
                   | Inr t \<Rightarrow>
                       (let transcription' = transcription_of t;
                            d1 = commit (n\<lparr>transcription := Some transcription',
                                            status := PROCESSING\<rparr>) d
                        in (Returned [(''note_id'', note_id), (''audio_id'', audio_id'),
                                      (''transcription'', PStr transcription'),
                                      (''audio_path'', audio_path'),
                                      (''youtube_link'', dict_get audio_data ''youtube_link'')],
                            [d1])))))"

section \<open>Synthesize: parsing the canonical transcript (workers/generate\_study\_notes.py)\<close>



text \<open>\<open>s.split(sep)\<close> for a separator of one character.\<close>

fun split :: "char \<Rightarrow> string \<Rightarrow> string list" where
  "split sep [] = [[]]"
| "split sep (c # cs) =
     (if c = sep then [] # split sep cs
      else (case split sep cs of [] \<Rightarrow> [[c]] | l # ls \<Rightarrow> (c # l) # ls))"










section \<open>Synthesize: the task (workers/generate\_study\_notes.py)\<close>

text \<open>
  What the provider call amounts to inside the inner \<open>try\<close>: an exception of the call,
  the \<open>ValueError\<close> raised on an empty answer, or the text.
\<close>

definition gemini_text :: "world \<Rightarrow> string + string" where
  "gemini_text w =
     (case gemini w of
        Inl e \<Rightarrow> Inl e
      | Inr r \<Rightarrow>
          if response_text r = [] then
            (case block_reason r of
               Some b \<Rightarrow> Inl (''Content generation blocked: '' @ b)
             | None \<Rightarrow> Inl ''Empty response from Gemini API'')
          else Inr (response_text r))"

text \<open>
  The parsed segments only go into the prompt, and the prompt only into the provider
  call, whose answer is given by the world; so the prompt is not built here.
  \<open>transcription.split\<close> on a value that is no string raises outside the inner \<open>try\<close>,
  past the handler.
\<close>

definition generate_study_notes ::
  "nat \<Rightarrow> world \<Rightarrow> pydict \<Rightarrow> db \<Rightarrow> task_result \<times> db list" where
  "generate_study_notes retries w transcription_data d =
     (let note_id = dict_get transcription_data ''note_id'';
          transcription' = dict_get transcription_data ''transcription'';
          youtube_link = dict_get transcription_data ''youtube_link''
      in case query_pyid d note_id of
           None \<Rightarrow>
             (Returned [(''note_id'', note_id), (''study_notes'', PNone),
                        (''error'', PStr (''Note with id '' @ py_str note_id @ '' not found''))],
              [])
         | Some n \<Rightarrow>
             if \<not> truthy transcription' then
               (let error_msg =
                      dict_get_default transcription_data ''error'' (PStr ''Transcription not found'');
                    d1 = commit (n\<lparr>status := FAILED, error := to_column error_msg\<rparr>) d
                in (Returned [(''note_id'', note_id), (''study_notes'', PNone),
                              (''error'', error_msg)],
                    [d1]))
             else
               (case transcription' of
                  PStr t \<Rightarrow>
                    (case gemini_text w of
                       Inl e \<Rightarrow>
                         (Raised e, on_exception ''Study notes generation'' retries e note_id d)
                     | Inr study_notes \<Rightarrow>
                         (let study_notes' =
                                (if truthy youtube_link
                                 then add_youtube_timestamps study_notes (py_str youtube_link)
                                 else study_notes);
                              d1 = commit (n\<lparr>note_col := Some study_notes',
                                              status := COMPLETED\<rparr>) d
                          in (Returned [(''note_id'', note_id),
                                        (''study_notes'', PStr study_notes'),
                                        (''youtube_link'', youtube_link)],
                              [d1])))
                | _ \<Rightarrow>
                    (Raised (CHR 0x27 # ''int'' @ CHR 0x27 # '' object has no attribute ''
                             @ CHR 0x27 # ''split'' @ [CHR 0x27]), [])))"

section \<open>Celery: signatures, chains and automatic retry (workers/\_\_init\_\_.py)\<close>

text \<open>
  A queued message is a task call, the value of \<open>self.request.retries\<close> for its run, and
  the links of the chain still to come. A link is a partial signature \<open>task.s()\<close>: it
  gets the result of the task before it as its argument.
\<close>

datatype call =
    Download_audio string int
  | Translate_audio_to_text pydict
  | Generate_study_notes pydict

datatype link = Translate_s | Generate_s

record message =
  call :: call
  request_retries :: nat
  links :: "link list"

definition create_audio_transcription_chain :: "string \<Rightarrow> int \<Rightarrow> message" where
  "create_audio_transcription_chain youtube_link note_id =
     \<lparr>call = Download_audio youtube_link note_id, request_retries = 0,
      links = [Translate_s, Generate_s]\<rparr>"

definition run_task :: "message \<Rightarrow> world \<Rightarrow> db \<Rightarrow> task_result \<times> db list" where
  "run_task m w d =
     (case call m of
        Download_audio youtube_link note_id \<Rightarrow>
          download_audio (request_retries m) w youtube_link note_id d
      | Translate_audio_to_text audio_data \<Rightarrow>
          translate_audio_to_text (request_retries m) w audio_data d
      | Generate_study_notes transcription_data \<Rightarrow>
          generate_study_notes (request_retries m) w transcription_data d)"

text \<open>
  The three tasks are declared with \<open>autoretry_for=(Exception,), max_retries=2\<close>
  ("Retry 2 times (3 total attempts: initial + 2 retries)"): a run that raises is queued
  again with \<open>request.retries\<close> one higher, unless \<open>request.retries\<close> has reached
  \<open>max_retries\<close>; then the chain ends.
\<close>

definition max_retries :: nat where
  "max_retries = 2"

definition retry_of :: "message \<Rightarrow> task_result \<Rightarrow> message option" where
  "retry_of m r =
     (case r of
        Raised e \<Rightarrow>
          if request_retries m < max_retries
          then Some (m\<lparr>request_retries := Suc (request_retries m)\<rparr>) else None
      | Returned v \<Rightarrow> None)"

fun apply_link :: "link \<Rightarrow> pydict \<Rightarrow> call" where
  "apply_link Translate_s v = Translate_audio_to_text v"
| "apply_link Generate_s v = Generate_study_notes v"

definition next_of :: "message \<Rightarrow> task_result \<Rightarrow> message option" where
  "next_of m r =
     (case r of
        Returned v \<Rightarrow>
          (case links m of
             [] \<Rightarrow> None
           | l # ls \<Rightarrow> Some \<lparr>call = apply_link l v, request_retries = 0, links = ls\<rparr>)
      | Raised e \<Rightarrow> None)"

text \<open>The state a run leaves: its last commit, or the state it started in.\<close>

definition state_after :: "db \<Rightarrow> db list \<Rightarrow> db" where
  "state_after d cs = last (d # cs)"

text \<open>
  One task run to its end with nothing else touching the database: the list of its
  attempts, each with its result and its commits. \<open>ws k\<close> is the world of the attempt with
  \<open>request.retries = k\<close>.
\<close>

function autoretry :: "message \<Rightarrow> (nat \<Rightarrow> world) \<Rightarrow> db \<Rightarrow> (task_result \<times> db list) list" where
  "autoretry m ws d =
     (case run_task m (ws (request_retries m)) d of
        (r, cs) \<Rightarrow>
          (r, cs) #
          (case retry_of m r of
             None \<Rightarrow> []
           | Some m' \<Rightarrow> autoretry m' ws (state_after d cs)))"
  by pat_completeness auto
termination
  by (relation "measure (\<lambda>(m, ws, d). Suc max_retries - request_retries m)")
     (auto simp: retry_of_def split: task_result.splits if_splits)

declare autoretry.simps [simp del]

section \<open>The API (api/\_\_init\_\_.py)\<close>

datatype ImportResponseModel = ImportResponseModel Status string

text \<open>
  What an endpoint raises: an \<open>HTTPException\<close> of its own, or an exception that escapes it
  (the string is \<open>str(e)\<close>), which the framework answers with status 500.
\<close>

datatype api_error = HTTPException nat string | Escaped string

text \<open>
  What an endpoint does besides answering, in order: each \<open>db.commit()\<close> with the state
  it leaves, and each \<open>.delay()\<close> with the message it queues.
\<close>

datatype effect = Commit db | Delay message

fun commits :: "effect list \<Rightarrow> db list" where
  "commits [] = []"
| "commits (Commit d # es) = d # commits es"
| "commits (Delay m # es) = commits es"

fun delays :: "effect list \<Rightarrow> message list" where
  "delays [] = []"
| "delays (Commit d # es) = delays es"
| "delays (Delay m # es) = m # delays es"

text \<open>A column read into a dict.\<close>

fun of_column :: "string option \<Rightarrow> pyval" where
  "of_column None = PNone"
| "of_column (Some s) = PStr s"

text \<open>
  \<open>.order_by(Note.created_at.desc()).first()\<close>: a row with the greatest \<open>created_at\<close>;
  among several of them the model takes the first in row order (SQL leaves it open).
\<close>

fun first_created_desc :: "Note list \<Rightarrow> Note option" where
  "first_created_desc [] = None"
| "first_created_desc (n # ns) =
     (case first_created_desc ns of
        None \<Rightarrow> Some n
      | Some m \<Rightarrow> if created_at n < created_at m then Some m else Some n)"

text \<open>
  \<open>Note(youtube_url=url, status="pending")\<close> after \<open>add\<close>, \<open>commit\<close> and \<open>refresh\<close>: the
  integer primary key is the next row number (no row is ever deleted), \<open>created_at\<close> is the
  clock of the database server.
\<close>

definition new_note :: "db \<Rightarrow> string \<Rightarrow> nat \<Rightarrow> Note" where
  "new_note d url now =
     \<lparr>id_col = int (length d) + 1, youtube_url = url, task_id = None, status = PENDING,
      audio_id = None, audio_path = None, error = None, transcription = None,
      note_col = None, created_at = now\<rparr>"

text \<open>\<open>POST /notes/youtube\<close>. \<open>tid\<close> is the id Celery gives the queued chain.\<close>

definition create_notes_from_youtube ::
  "string \<Rightarrow> nat \<Rightarrow> string \<Rightarrow> db \<Rightarrow> ImportResponseModel \<times> effect list" where
  "create_notes_from_youtube url now tid d =
     (let existing_note =
            first_created_desc
              (filter (\<lambda>n. youtube_url n = url \<and> status n = COMPLETED \<and> note_col n \<noteq> None) d);
          n = new_note d url now;
          d1 = d @ [n];
          queued =
            (let chain_result = create_audio_transcription_chain url (id_col n);
                 d2 = commit (n\<lparr>task_id := Some tid\<rparr>) d1
             in (ImportResponseModel PENDING tid, [Commit d1, Delay chain_result, Commit d2]))
      in case existing_note of
           None \<Rightarrow> queued
         | Some e \<Rightarrow>
             if truthy_col (note_col e) then
               (let d2 = commit (n\<lparr>transcription := transcription e, note_col := note_col e,
                                   status := COMPLETED, audio_path := audio_path e,
                                   audio_id := audio_id e\<rparr>) d1
                in (ImportResponseModel COMPLETED (str_int (id_col n)), [Commit d1, Commit d2]))
             else queued)"

text \<open>\<open>note.audio_path and Path(note.audio_path).exists()\<close>, as a truth value.\<close>

definition audio_exists :: "world \<Rightarrow> Note \<Rightarrow> string + bool" where
  "audio_exists w n =
     (case audio_path n of
        None \<Rightarrow> Inr False
      | Some p \<Rightarrow> if p = [] then Inr False else path_exists w p)"

text \<open>\<open>POST /notes/{notes_id}/retry\<close>: the Resume Planner.\<close>

definition retry_note ::
  "int \<Rightarrow> world \<Rightarrow> string \<Rightarrow> db \<Rightarrow> (api_error + ImportResponseModel) \<times> effect list" where
  "retry_note notes_id w tid d =
     (case query_id d notes_id of
        None \<Rightarrow> (Inl (HTTPException 404 ''Note not found''), [])
      | Some n \<Rightarrow>
          if status n = COMPLETED \<and> truthy_col (note_col n) then
            (Inr (ImportResponseModel COMPLETED (str_int (id_col n))), [])
          else
            (case audio_exists w n of
               Inl e \<Rightarrow> (Inl (Escaped e), [])
             | Inr audio_exists' \<Rightarrow>
                (let transcription_exists = (transcription n \<noteq> None)
                 in if audio_exists' \<and> transcription_exists then
                      (let transcription_data =
                             [(''note_id'', PInt (id_col n)),
                              (''transcription'', of_column (transcription n)),
                              (''youtube_link'', PStr (youtube_url n))];
                           n1 = n\<lparr>status := PROCESSING, error := None\<rparr>;
                           d1 = commit n1 d;
                           task = \<lparr>call = Generate_study_notes transcription_data,
                                   request_retries = 0, links = []\<rparr>;
                           d2 = commit (n1\<lparr>task_id := Some tid\<rparr>) d1
                       in (Inr (ImportResponseModel PENDING tid), [Commit d1, Delay task, Commit d2]))
                    else if audio_exists' then
                      (let audio_data =
                             [(''note_id'', PInt (id_col n)),
                              (''audio_id'', PStr (case audio_id n of None \<Rightarrow> [] | Some a \<Rightarrow> a)),
                              (''audio_path'', of_column (audio_path n)),
                              (''youtube_link'', PStr (youtube_url n))];
                           n1 = n\<lparr>status := PROCESSING, error := None\<rparr>;
                           d1 = commit n1 d;
                           chain_result = \<lparr>call = Translate_audio_to_text audio_data,
                                           request_retries = 0, links = [Generate_s]\<rparr>;
                           d2 = commit (n1\<lparr>task_id := Some tid\<rparr>) d1
                       in (Inr (ImportResponseModel PENDING tid),
                           [Commit d1, Delay chain_result, Commit d2]))
                    else
                      (let n1 = n\<lparr>status := PENDING, error := None, audio_path := None,
                                    audio_id := None\<rparr>;
                           d1 = commit n1 d;
                           chain_result = create_audio_transcription_chain (youtube_url n) (id_col n);
                           d2 = commit (n1\<lparr>task_id := Some tid\<rparr>) d1
                       in (Inr (ImportResponseModel PENDING tid),
                           [Commit d1, Delay chain_result, Commit d2])))))"

text \<open>
  The body shared by the two regenerate endpoints: status to \<open>"failed"\<close> and the error
  cleared, commit; the generation task queued; task id and status \<open>"processing"\<close>, commit.
\<close>

definition regenerate_one :: "string \<Rightarrow> Note \<Rightarrow> db \<Rightarrow> effect list" where
  "regenerate_one tid n d =
     (let n1 = n\<lparr>status := FAILED, error := None\<rparr>;
          d1 = commit n1 d;
          transcription_data =
            [(''note_id'', PInt (id_col n)),
             (''transcription'', of_column (transcription n)),
             (''youtube_link'', PStr (youtube_url n))];
          task = \<lparr>call = Generate_study_notes transcription_data,
                  request_retries = 0, links = []\<rparr>;
          d2 = commit (n1\<lparr>task_id := Some tid, status := PROCESSING\<rparr>) d1
      in [Commit d1, Delay task, Commit d2])"

text \<open>\<open>POST /notes/{notes_id}/regenerate-note\<close>\<close>

definition regenerate_note ::
  "int \<Rightarrow> string \<Rightarrow> db \<Rightarrow> (api_error + ImportResponseModel) \<times> effect list" where
  "regenerate_note notes_id tid d =
     (case query_id d notes_id of
        None \<Rightarrow> (Inl (HTTPException 404 ''Note not found''), [])
      | Some n \<Rightarrow>
          if \<not> truthy_col (transcription n) then
            (Inl (HTTPException 400
                   ''Note does not have transcription. Cannot generate study notes.''), [])
          else if truthy_col (note_col n) then
            (Inr (ImportResponseModel COMPLETED (str_int (id_col n))), [])
          else (Inr (ImportResponseModel PENDING tid), regenerate_one tid n d))"

text \<open>
  \<open>POST /notes/regenerate-all\<close>: the loop over the rows with a transcription and no
  notes; \<open>tids\<close> gives the task id for each row. The answer is the count.
\<close>

fun regenerate_loop :: "(int \<Rightarrow> string) \<Rightarrow> Note list \<Rightarrow> db \<Rightarrow> effect list" where
  "regenerate_loop tids [] d = []"
| "regenerate_loop tids (n # ns) d =
     (let es = regenerate_one (tids (id_col n)) n d
      in es @ regenerate_loop tids ns (state_after d (commits es)))"

definition regenerate_all_notes :: "(int \<Rightarrow> string) \<Rightarrow> db \<Rightarrow> nat \<times> effect list" where
  "regenerate_all_notes tids d =
     (let notes_to_regenerate = filter (\<lambda>n. transcription n \<noteq> None \<and> note_col n = None) d
      in (length notes_to_regenerate, regenerate_loop tids notes_to_regenerate d))"

section \<open>The running system\<close>

text \<open>
  The database and the queue of messages not yet run. An event is a request to the API
  or a worker running the message at some place in the queue (requests and runs are taken
  one at a time; runs overlapping in time are outside this model).
\<close>

record system =
  sys_db :: db
  queue :: "message list"

datatype event =
    Submit string nat string
  | Retry int world string
  | Regenerate_note int string
  | Regenerate_all "int \<Rightarrow> string"
  | Work nat world

definition after_request :: "effect list \<Rightarrow> system \<Rightarrow> db list \<times> system" where
  "after_request es s =
     (commits es, \<lparr>sys_db = state_after (sys_db s) (commits es), queue = queue s @ delays es\<rparr>)"

text \<open>An event gives the states committed on the way and the system it leaves.\<close>

fun exec :: "event \<Rightarrow> system \<Rightarrow> db list \<times> system" where
  "exec (Submit url now tid) s = after_request (snd (create_notes_from_youtube url now tid (sys_db s))) s"
| "exec (Retry notes_id w tid) s = after_request (snd (retry_note notes_id w tid (sys_db s))) s"
| "exec (Regenerate_note notes_id tid) s = after_request (snd (regenerate_note notes_id tid (sys_db s))) s"
| "exec (Regenerate_all tids) s = after_request (snd (regenerate_all_notes tids (sys_db s))) s"
| "exec (Work k w) s =
     (if k < length (queue s) then
        (let m = queue s ! k;
             rest = take k (queue s) @ drop (Suc k) (queue s)
         in case run_task m w (sys_db s) of
              (r, cs) \<Rightarrow>
                (cs, \<lparr>sys_db = state_after (sys_db s) cs,
                      queue = rest @ (case retry_of m r of None \<Rightarrow> [] | Some m' \<Rightarrow> [m'])
                                   @ (case next_of m r of None \<Rightarrow> [] | Some m' \<Rightarrow> [m'])\<rparr>))
      else ([], s))"

definition initial :: system where
  "initial = \<lparr>sys_db = [], queue = []\<rparr>"

inductive reachable :: "system \<Rightarrow> bool" where
  reachable_initial: "reachable initial"
| reachable_exec: "reachable s \<Longrightarrow> reachable (snd (exec e s))"

text \<open>
  The states the database is ever in: those the system rests in between events and
  those committed on the way.
\<close>

inductive persisted :: "db \<Rightarrow> bool" where
  persisted_state: "reachable s \<Longrightarrow> persisted (sys_db s)"
| persisted_commit: "reachable s \<Longrightarrow> d \<in> set (fst (exec e s)) \<Longrightarrow> persisted d"

text \<open>The system after a list of events, from the empty database.\<close>

definition run :: "event list \<Rightarrow> system" where
  "run es = foldl (\<lambda>s e. snd (exec e s)) initial es"

section \<open>Notions used in the statements\<close>

text \<open>
  The predicates, tables and example records the theorems below are stated with. None of
  them is part of the program.
\<close>

subsection \<open>Timestamp markers\<close>

text \<open>
  The texts the pattern matches, described without the matcher: a marker is
  \<open>[g1:g2]\<close> or \<open>[g1:g2:g3]\<close> with one or two digits in \<open>g1\<close> and two in each other group.
\<close>

definition valid_groups :: "ts_groups \<Rightarrow> bool" where
  "valid_groups m =
     (case m of (g1, g2, g3) \<Rightarrow>
        (length g1 = 1 \<or> length g1 = 2) \<and> list_all is_digit g1 \<and>
        length g2 = 2 \<and> list_all is_digit g2 \<and>
        (case g3 of None \<Rightarrow> True | Some g \<Rightarrow> length g = 2 \<and> list_all is_digit g))"

definition marker_text :: "ts_groups \<Rightarrow> string" where
  "marker_text m =
     (case m of (g1, g2, g3) \<Rightarrow>
        ''['' @ g1 @ '':'' @ g2 @ (case g3 of None \<Rightarrow> [] | Some g \<Rightarrow> '':'' @ g) @ '']'')"

text \<open>A text in which no marker occurs.\<close>

definition marker_free :: "string \<Rightarrow> bool" where
  "marker_free s \<longleftrightarrow> \<not> (\<exists>pre m post. valid_groups m \<and> s = pre @ marker_text m @ post)"

text \<open>Gaps and the pieces between them, put together in order.\<close>

fun weave :: "string list \<Rightarrow> string list \<Rightarrow> string" where
  "weave [] ms = []"
| "weave (g # gs) [] = g"
| "weave (g # gs) (m # ms) = g @ m @ weave gs ms"

subsection \<open>The resume planner\<close>





text \<open>
  What the retry endpoint writes first for a record, by the branch it takes: status and
  error in each, and the media location and media id too where it starts at Acquire.
\<close>

definition resumed :: "bool \<Rightarrow> Note \<Rightarrow> Note" where
  "resumed on_disk n =
     (if on_disk then n\<lparr>status := PROCESSING, error := None\<rparr>
      else n\<lparr>status := PENDING, error := None, audio_path := None, audio_id := None\<rparr>)"

subsection \<open>Failure and retry\<close>





text \<open>
  Where Transcribe stands before its media file: the location is absent, or the test
  answers that no file is there; or the test itself raises \<open>e\<close>.
\<close>

definition media_absent :: "world \<Rightarrow> pydict \<Rightarrow> bool" where
  "media_absent w audio_data \<longleftrightarrow>
     (case dict_get audio_data ''audio_path'' of
        PNone \<Rightarrow> True
      | PStr p \<Rightarrow> p = [] \<or> path_exists w p = Inr False
      | PInt i \<Rightarrow> i = 0)"

definition media_test_raises :: "world \<Rightarrow> pydict \<Rightarrow> string \<Rightarrow> bool" where
  "media_test_raises w audio_data e \<longleftrightarrow>
     (case dict_get audio_data ''audio_path'' of
        PStr p \<Rightarrow> p \<noteq> [] \<and> path_exists w p = Inl e
      | _ \<Rightarrow> False)"

text \<open>The Job Record a task call works on, and the prefix of its failure message.\<close>

fun job_of :: "call \<Rightarrow> pyval" where
  "job_of (Download_audio youtube_link note_id) = PInt note_id"
| "job_of (Translate_audio_to_text audio_data) = dict_get audio_data ''note_id''"
| "job_of (Generate_study_notes transcription_data) = dict_get transcription_data ''note_id''"

fun stage_name :: "call \<Rightarrow> string" where
  "stage_name (Download_audio youtube_link note_id) = ''Download''"
| "stage_name (Translate_audio_to_text audio_data) = ''Transcription''"
| "stage_name (Generate_study_notes transcription_data) = ''Study notes generation''"

text \<open>
  The exception with which the stage's own work fails in a world, if it does: the
  download, the reading and transcribing of the media file, the generation.
\<close>

fun stage_failure :: "call \<Rightarrow> world \<Rightarrow> string option" where
  "stage_failure (Download_audio youtube_link note_id) w = ydl_download w"
| "stage_failure (Translate_audio_to_text audio_data) w =
     (case audio_missing w (dict_get audio_data ''audio_path'') of
        Inl e \<Rightarrow> Some e
      | Inr True \<Rightarrow> None
      | Inr False \<Rightarrow> (case whisper w of Inl e \<Rightarrow> Some e | Inr t \<Rightarrow> None))"
| "stage_failure (Generate_study_notes transcription_data) w =
     (case dict_get transcription_data ''transcription'' of
        PStr t \<Rightarrow>
          if t = [] then None
          else (case gemini_text w of Inl e \<Rightarrow> Some e | Inr s \<Rightarrow> None)
      | _ \<Rightarrow> None)"

text \<open>No commit in the list leaves the job in status Failed.\<close>

definition never_failed :: "pyval \<Rightarrow> db list \<Rightarrow> bool" where
  "never_failed i cs =
     list_all (\<lambda>c. case query_pyid c i of None \<Rightarrow> True | Some n \<Rightarrow> status n \<noteq> FAILED) cs"

subsection \<open>The transcript read back\<close>






subsection \<open>What holds of every committed state\<close>

text \<open>A completed record has notes, and they are not empty, and a transcript.\<close>

definition completed_ok :: "Note \<Rightarrow> bool" where
  "completed_ok n \<longleftrightarrow>
     (status n = COMPLETED \<longrightarrow> truthy_col (note_col n) \<and> transcription n \<noteq> None)"

text \<open>No row has an id beyond the number of rows: the next id is new.\<close>

definition ids_fresh :: "db \<Rightarrow> bool" where
  "ids_fresh d \<longleftrightarrow> list_all (\<lambda>n. id_col n \<le> int (length d)) d"

definition good :: "db \<Rightarrow> bool" where
  "good d \<longleftrightarrow> ids_fresh d \<and> list_all completed_ok d"

definition has_transcript :: "db \<Rightarrow> pyval \<Rightarrow> bool" where
  "has_transcript d v =
     (case query_pyid d v of None \<Rightarrow> False | Some n \<Rightarrow> transcription n \<noteq> None)"

text \<open>From \<open>d\<close> to \<open>d'\<close> no row is lost and no transcript is lost.\<close>

definition mono :: "db \<Rightarrow> db \<Rightarrow> bool" where
  "mono d d' \<longleftrightarrow>
     (\<forall>i. query_id d i \<noteq> None \<longrightarrow> query_id d' i \<noteq> None) \<and>
     (\<forall>v. has_transcript d v \<longrightarrow> has_transcript d' v)"

text \<open>One commit of a changed row.\<close>

definition row_update :: "db \<Rightarrow> db \<Rightarrow> bool" where
  "row_update d d' \<longleftrightarrow>
     (\<exists>n n'. d' = commit n' d \<and> query_id d (id_col n') = Some n \<and> completed_ok n' \<and>
        (transcription n \<noteq> None \<longrightarrow> transcription n' \<noteq> None))"

text \<open>A sequence of commits, each one made from the state the one before left.\<close>

fun chain :: "db \<Rightarrow> db list \<Rightarrow> bool" where
  "chain d [] = True"
| "chain d (c # cs) =
     ((row_update d c \<or> (\<exists>url now. c = d @ [new_note d url now])) \<and> chain c cs)"

text \<open>
  A queued generation task that carries a transcript belongs to a record that has one.
\<close>

definition payload_ok :: "db \<Rightarrow> message \<Rightarrow> bool" where
  "payload_ok d m =
     (case call m of
        Generate_study_notes td \<Rightarrow>
          truthy (dict_get td ''transcription'') \<longrightarrow> has_transcript d (dict_get td ''note_id'')
      | _ \<Rightarrow> True)"

definition inv :: "system \<Rightarrow> bool" where
  "inv s \<longleftrightarrow> good (sys_db s) \<and> list_all (payload_ok (sys_db s)) (queue s)"

text \<open>What a request does: a chain of commits, and tasks fit for the state it leaves.\<close>

definition request_ok :: "db \<Rightarrow> effect list \<Rightarrow> bool" where
  "request_ok d es \<longleftrightarrow>
     chain d (commits es) \<and> list_all (payload_ok (state_after d (commits es))) (delays es)"

subsection \<open>Example records, worlds and runs\<close>

definition crashed_after_acquire :: Note where
  "crashed_after_acquire =
     \<lparr>id_col = 1, youtube_url = ''https://v/1'', task_id = Some ''t1'', status = PROCESSING,
      audio_id = Some ''u1'', audio_path = Some ''media/u1.mp3'', error = None,
      transcription = None, note_col = None, created_at = 0\<rparr>"

definition lost_media :: Note where
  "lost_media =
     \<lparr>id_col = 1, youtube_url = ''https://v/1'', task_id = Some ''t1'', status = FAILED,
      audio_id = Some ''u1'', audio_path = Some ''media/u1.mp3'',
      error = Some ''Study notes generation failed after 3 attempts: boom'',
      transcription = Some ''[0.00s -> 1.50s] Hi'', note_col = None, created_at = 0\<rparr>"

definition resume_audio_data :: pydict where
  "resume_audio_data =
     [(''note_id'', PInt 1), (''audio_id'', PStr ''u1''), (''audio_path'', PStr ''media/u1.mp3''),
      (''youtube_link'', PStr ''https://v/1'')]"

text \<open>
  A disk whose file names hold at most 255 characters: the test of a longer name raises.
\<close>

definition name_limit :: world where
  "name_limit =
     \<lparr>uuid4 = ''u5'', ydl_download = None,
      path_exists = (\<lambda>p. if 255 < length p then Inl ''[Errno 36] File name too long''
                         else Inr False),
      whisper = Inl ''unreachable'', gemini = Inl ''unreachable''\<rparr>"

definition long_name_data :: pydict where
  "long_name_data =
     [(''note_id'', PInt 1), (''audio_id'', PStr ''u1''),
      (''audio_path'', PStr (replicate 256 (CHR ''a''))),
      (''youtube_link'', PStr ''https://v/1'')]"

definition disk_with :: "string list \<Rightarrow> world" where
  "disk_with files =
     \<lparr>uuid4 = ''u2'', ydl_download = None, path_exists = (\<lambda>p. Inr (p \<in> set files)),
      whisper = Inl ''unreachable'', gemini = Inl ''unreachable''\<rparr>"

definition offline :: world where
  "offline =
     \<lparr>uuid4 = ''u3'', ydl_download = Some ''boom'', path_exists = (\<lambda>p. Inr False),
      whisper = Inl ''boom'', gemini = Inl ''boom''\<rparr>"

definition answering :: "string \<Rightarrow> world" where
  "answering s =
     \<lparr>uuid4 = ''u4'', ydl_download = None, path_exists = (\<lambda>p. Inr True),
      whisper = Inl ''unreachable'',
      gemini = Inr \<lparr>response_text = s, block_reason = None\<rparr>\<rparr>"

definition online :: world where
  "online =
     \<lparr>uuid4 = ''u1'', ydl_download = None, path_exists = (\<lambda>p. Inr True),
      whisper = Inr \<lparr>segments = [\<lparr>seg_start = Finite 0, seg_end = Finite (3 / 2), seg_text = '' Hi''\<rparr>],
                     text_attr = ''Hi''\<rparr>,
      gemini = Inr \<lparr>response_text = ''See [1:02].'', block_reason = None\<rparr>\<rparr>"



definition completed_job :: Note where
  "completed_job =
     \<lparr>id_col = 1, youtube_url = ''https://v/1'', task_id = Some ''t1'', status = COMPLETED,
      audio_id = Some ''u1'', audio_path = Some ''media/u1.mp3'', error = None,
      transcription = Some ''[0.00s -> 1.50s]  Hi'',
      note_col = Some ''See [1:02](https://v/1?t=62).'', created_at = 1\<rparr>"

definition completed_without_audio :: Note where
  "completed_without_audio =
     \<lparr>id_col = 1, youtube_url = ''https://v/1'', task_id = Some ''t3'', status = COMPLETED,
      audio_id = None, audio_path = None, error = None,
      transcription = Some ''[0.00s -> 1.50s]  Hi'',
      note_col = Some ''See [1:02](https://v/1?t=62).'', created_at = 1\<rparr>"

text \<open>
  A job runs through: submitted, media acquired, transcribed, notes generated.
\<close>

definition job_completes :: "event list" where
  "job_completes =
     [Submit ''https://v/1'' 1 ''t1'', Work 0 online, Work 0 online, Work 0 online]"

text \<open>
  A job loses its media file: notes generation fails three times; the file is gone when
  the operator resumes, so the planner clears the media location and starts at Acquire;
  the download fails three times; the operator regenerates the notes from the transcript
  that is still there, and the job completes.
\<close>

definition job_loses_audio :: "event list" where
  "job_loses_audio =
     [Submit ''https://v/1'' 1 ''t1'', Work 0 online, Work 0 online,
      Work 0 offline, Work 0 offline, Work 0 offline, Retry 1 offline ''t2'',
      Work 0 offline, Work 0 offline, Work 0 offline, Regenerate_note 1 ''t3'', Work 0 online]"

section \<open>Facts about the timestamp pattern\<close>

lemma length_1_conv: "length xs = Suc 0 \<longleftrightarrow> (\<exists>a. xs = [a])"
  by (cases xs) auto

lemma length_2_conv: "length xs = 2 \<longleftrightarrow> (\<exists>a b. xs = [a, b])"
  by (cases xs; cases "tl xs") auto

lemma not_digit_colon [simp]: "\<not> is_digit (CHR '':'')"
  by (simp add: is_digit_def)

lemma not_digit_close [simp]: "\<not> is_digit (CHR '']'')"
  by (simp add: is_digit_def)

lemma not_digit_open [simp]: "\<not> is_digit (CHR ''['')"
  by (simp add: is_digit_def)

lemma lit_Some: "lit c s = Some r \<longleftrightarrow> s = c # r"
  by (cases s) auto

lemma digits_2_Some:
  "digits_2 s = Some (g, r) \<longleftrightarrow> (\<exists>a b. g = [a, b] \<and> is_digit a \<and> is_digit b \<and> s = a # b # r)"
  by (cases s rule: digits_2.cases) auto

lemma ts_tail_sound:
  assumes "ts_tail g1 g2 t = Some (m, r)"
  shows "\<exists>g3. m = (g1, g2, g3) \<and> (case g3 of None \<Rightarrow> True | Some g \<Rightarrow> length g = 2 \<and> list_all is_digit g)
           \<and> t = (case g3 of None \<Rightarrow> [] | Some g \<Rightarrow> '':'' @ g) @ '']'' @ r"
  using assms
  by (auto simp: ts_tail_def orelse_def lit_Some digits_2_Some split: option.splits)

lemma ts_after_g1_sound:
  assumes "ts_after_g1 g1 t = Some (m, r)"
  shows "\<exists>g2 g3. m = (g1, g2, g3) \<and> length g2 = 2 \<and> list_all is_digit g2
           \<and> (case g3 of None \<Rightarrow> True | Some g \<Rightarrow> length g = 2 \<and> list_all is_digit g)
           \<and> t = '':'' @ g2 @ (case g3 of None \<Rightarrow> [] | Some g \<Rightarrow> '':'' @ g) @ '']'' @ r"
proof -
  from assms obtain t1 g2 t2 where 1: "lit (CHR '':'') t = Some t1"
    and 2: "digits_2 t1 = Some (g2, t2)" and 3: "ts_tail g1 g2 t2 = Some (m, r)"
    by (auto simp: ts_after_g1_def split: option.splits)
  from ts_tail_sound[OF 3] 1 2 show ?thesis
    by (auto simp: lit_Some digits_2_Some)
qed

lemma match_timestamp_sound:
  assumes "match_timestamp s = Some (m, r)"
  shows "valid_groups m \<and> s = marker_text m @ r"
proof -
  from assms obtain s1 where s: "s = CHR ''['' # s1" and g: "ts_g1 s1 = Some (m, r)"
    by (auto simp: match_timestamp_def lit_Some split: option.splits)
  from g obtain g1 t where g1: "length g1 = 1 \<or> length g1 = 2" "list_all is_digit g1"
    "s1 = g1 @ t" and a: "ts_after_g1 g1 t = Some (m, r)"
  proof (cases s1 rule: ts_g1.cases)
    case (1 a b r')
    show ?thesis
    proof (cases "is_digit a \<and> is_digit b \<and> ts_after_g1 [a, b] r' \<noteq> None")
      case True
      with g 1 show ?thesis by (intro that[of "[a, b]" r']) (auto simp: orelse_def)
    next
      case False
      with g 1 show ?thesis
        by (intro that[of "[a]" "b # r'"]) (auto simp: orelse_def split: if_splits option.splits)
    qed
  next
    case (2 a)
    with g show ?thesis by (intro that[of "[a]" "[]"]) (auto split: if_splits)
  next
    case 3
    with g show ?thesis by simp
  qed
  from ts_after_g1_sound[OF a] g1 s show ?thesis
    by (auto simp: valid_groups_def marker_text_def)
qed

lemma match_timestamp_complete:
  assumes "valid_groups m"
  shows "match_timestamp (marker_text m @ r) = Some (m, r)"
proof -
  obtain g1 g2 g3 where m: "m = (g1, g2, g3)" by (cases m)
  from assms m obtain c d where g2: "g2 = [c, d]" "is_digit c" "is_digit d"
    by (auto simp: valid_groups_def length_2_conv)
  have tail: "ts_tail g g2 ((case g3 of None \<Rightarrow> [] | Some x \<Rightarrow> '':'' @ x) @ '']'' @ r)
                = Some ((g, g2, g3), r)" for g
    using assms m
    by (cases g3) (auto simp: valid_groups_def length_2_conv ts_tail_def orelse_def)
  have after: "ts_after_g1 g ('':'' @ g2 @ (case g3 of None \<Rightarrow> [] | Some x \<Rightarrow> '':'' @ x) @ '']'' @ r)
                = Some ((g, g2, g3), r)" for g
    using tail[of g] g2 by (simp add: ts_after_g1_def)
  from assms m consider a where "g1 = [a]" "is_digit a" | a b where "g1 = [a, b]" "is_digit a" "is_digit b"
    by (auto simp: valid_groups_def length_1_conv length_2_conv)
  then show ?thesis
  proof cases
    case 1
    with after[of "[a]"] g2 show ?thesis
      by (simp add: m marker_text_def match_timestamp_def)
  next
    case 2
    with after[of "[a, b]"] show ?thesis
      by (simp add: m marker_text_def match_timestamp_def orelse_def)
  qed
qed

lemma marker_text_open: "\<exists>t. marker_text m = CHR ''['' # t"
  by (cases m) (simp add: marker_text_def)

lemma marker_text_no_inner_open:
  assumes "valid_groups m"
  shows "CHR ''['' \<notin> set (tl (marker_text m))"
  using assms
  by (cases m) (auto simp: valid_groups_def marker_text_def list_all_iff split: option.splits)

text \<open>A match never reaches across a later opening bracket.\<close>

lemma match_timestamp_before_open:
  assumes "xs \<noteq> []"
  shows "match_timestamp (xs @ CHR ''['' # ys) =
           map_option (\<lambda>(m, r). (m, r @ CHR ''['' # ys)) (match_timestamp xs)"
proof (cases "match_timestamp xs")
  case (Some a)
  obtain m r where a: "a = (m, r)" by (cases a)
  from match_timestamp_sound[OF Some[unfolded a]]
  have v: "valid_groups m" and xs: "xs = marker_text m @ r" by auto
  have "match_timestamp (xs @ CHR ''['' # ys) = Some (m, r @ CHR ''['' # ys)"
    using match_timestamp_complete[OF v, of "r @ CHR ''['' # ys"] by (simp add: xs)
  then show ?thesis by (simp add: Some a)
next
  case None
  have "match_timestamp (xs @ CHR ''['' # ys) = None"
  proof (rule ccontr)
    assume "match_timestamp (xs @ CHR ''['' # ys) \<noteq> None"
    then obtain m r where mr: "match_timestamp (xs @ CHR ''['' # ys) = Some (m, r)" by auto
    from match_timestamp_sound[OF mr]
    have v: "valid_groups m" and eq: "xs @ CHR ''['' # ys = marker_text m @ r" by auto
    from eq obtain us where "(xs @ us = marker_text m \<and> CHR ''['' # ys = us @ r)
         \<or> (xs = marker_text m @ us \<and> us @ CHR ''['' # ys = r)"
      by (auto simp: append_eq_append_conv2)
    then show False
    proof
      assume h: "xs @ us = marker_text m \<and> CHR ''['' # ys = us @ r"
      show False
      proof (cases us)
        case Nil
        with h match_timestamp_complete[OF v, of "[]"] None show False by simp
      next
        case (Cons u us')
        with h have "marker_text m = xs @ CHR ''['' # us'" by auto
        with assms have "CHR ''['' \<in> set (tl (marker_text m))" by (cases xs) auto
        with marker_text_no_inner_open[OF v] show False by simp
      qed
    next
      assume "xs = marker_text m @ us \<and> us @ CHR ''['' # ys = r"
      with match_timestamp_complete[OF v, of us] None show False by simp
    qed
  qed
  with None show ?thesis by simp
qed

lemma add_youtube_timestamps_marker:
  assumes "valid_groups m"
  shows "add_youtube_timestamps (pre @ marker_text m @ post) url =
           add_youtube_timestamps pre url @ replace_timestamp url m @ add_youtube_timestamps post url"
proof (induction pre url rule: add_youtube_timestamps.induct)
  case (1 url)
  obtain t where t: "marker_text m = CHR ''['' # t" using marker_text_open by blast
  from match_timestamp_complete[OF assms, of post] show ?case by (simp add: t)
next
  case (2 c cs url)
  obtain t where t: "marker_text m = CHR ''['' # t" using marker_text_open by blast
  have eq: "match_timestamp ((c # cs) @ marker_text m @ post) =
      map_option (\<lambda>(g, r). (g, r @ marker_text m @ post)) (match_timestamp (c # cs))"
    using match_timestamp_before_open[of "c # cs" "t @ post"] by (simp add: t)
  show ?case
  proof (cases "match_timestamp (c # cs)")
    case None
    with eq 2(1)[OF None] show ?thesis by simp
  next
    case (Some a)
    obtain g r where a: "a = (g, r)" by (cases a)
    from Some a have S: "match_timestamp (c # cs) = Some (g, r)" by simp
    have IH: "add_youtube_timestamps (r @ marker_text m @ post) url =
        add_youtube_timestamps r url @ replace_timestamp url m @ add_youtube_timestamps post url"
      by (rule 2(2)[OF S refl])
    have "match_timestamp (c # cs @ marker_text m @ post) = Some (g, r @ marker_text m @ post)"
      using eq S by simp
    then show ?thesis using S IH by simp
  qed
qed

lemma add_youtube_timestamps_no_marker:
  assumes "\<forall>pre m post. valid_groups m \<longrightarrow> s \<noteq> pre @ marker_text m @ post"
  shows "add_youtube_timestamps s url = s"
  using assms
proof (induction s)
  case Nil
  then show ?case by simp
next
  case (Cons c cs)
  have "match_timestamp (c # cs) = None"
  proof (rule ccontr)
    assume "match_timestamp (c # cs) \<noteq> None"
    then obtain m r where "match_timestamp (c # cs) = Some (m, r)" by auto
    from match_timestamp_sound[OF this] Cons.prems[rule_format, of m "[]" r] show False by simp
  qed
  moreover have "\<forall>pre m post. valid_groups m \<longrightarrow> cs \<noteq> pre @ marker_text m @ post"
  proof (intro allI impI)
    fix pre m post assume "valid_groups m"
    with Cons.prems[rule_format, of m "c # pre" post] show "cs \<noteq> pre @ marker_text m @ post" by simp
  qed
  ultimately show ?case using Cons.IH by simp
qed

section \<open>The link written for a timestamp marker\<close>

text \<open>
  C4 (as amended). Every marker \<open>[MM:SS]\<close> in the notes is rewritten to
  \<open>[display](url?t=M*60+S)\<close> and every marker \<open>[H:MM:SS]\<close> or \<open>[HH:MM:SS]\<close> to
  \<open>[display](url?t=H*3600+M*60+S)\<close>, wherever it stands in the text. The display time is
  recomputed from the numbers: the leading number without padding, every later number
  padded to two digits. So \<open>[12:34]\<close> becomes \<open>[12:34](https://x/y?t=754)\<close> and
  \<open>[1:02:03]\<close> becomes \<open>[1:02:03](https://x/y?t=3723)\<close>.
\<close>

theorem timestamp_rewrite_link:
  "(valid_groups (mm, ss, None) \<longrightarrow>
      add_youtube_timestamps (pre @ ''['' @ mm @ '':'' @ ss @ '']'' @ post) url =
        add_youtube_timestamps pre url @
        ''['' @ str_nat (int_of_digits mm) @ '':'' @ fmt_02d (int_of_digits ss) @ ''](''
          @ url @ ''?t='' @ str_nat (int_of_digits mm * 60 + int_of_digits ss) @ '')'' @
        add_youtube_timestamps post url) \<and>
   (valid_groups (hh, mi, Some sec) \<longrightarrow>
      add_youtube_timestamps (pre @ ''['' @ hh @ '':'' @ mi @ '':'' @ sec @ '']'' @ post) url =
        add_youtube_timestamps pre url @
        ''['' @ str_nat (int_of_digits hh) @ '':'' @ fmt_02d (int_of_digits mi) @ '':''
          @ fmt_02d (int_of_digits sec) @ ''](''
          @ url @ ''?t=''
          @ str_nat (int_of_digits hh * 3600 + int_of_digits mi * 60 + int_of_digits sec) @ '')'' @
        add_youtube_timestamps post url)"
proof (intro conjI impI)
  assume v: "valid_groups (mm, ss, None)"
  from add_youtube_timestamps_marker[OF v, of pre post url]
  show "add_youtube_timestamps (pre @ ''['' @ mm @ '':'' @ ss @ '']'' @ post) url =
        add_youtube_timestamps pre url @
        ''['' @ str_nat (int_of_digits mm) @ '':'' @ fmt_02d (int_of_digits ss) @ ''](''
          @ url @ ''?t='' @ str_nat (int_of_digits mm * 60 + int_of_digits ss) @ '')'' @
        add_youtube_timestamps post url"
    by (simp add: marker_text_def replace_timestamp_def Let_def)
next
  assume v: "valid_groups (hh, mi, Some sec)"
  from add_youtube_timestamps_marker[OF v, of pre post url]
  show "add_youtube_timestamps (pre @ ''['' @ hh @ '':'' @ mi @ '':'' @ sec @ '']'' @ post) url =
        add_youtube_timestamps pre url @
        ''['' @ str_nat (int_of_digits hh) @ '':'' @ fmt_02d (int_of_digits mi) @ '':''
          @ fmt_02d (int_of_digits sec) @ ''](''
          @ url @ ''?t=''
          @ str_nat (int_of_digits hh * 3600 + int_of_digits mi * 60 + int_of_digits sec) @ '')'' @
        add_youtube_timestamps post url"
    by (simp add: marker_text_def replace_timestamp_def Let_def)
qed

theorem timestamp_rewrite_link_witness:
  "add_youtube_timestamps ''[12:34]'' ''https://x/y'' = ''[12:34](https://x/y?t=754)'' \<and>
   add_youtube_timestamps ''[1:02:03]'' ''https://x/y'' = ''[1:02:03](https://x/y?t=3723)''"
proof -
  have v1: "valid_groups (''12'', ''34'', None)"
    by (simp add: valid_groups_def is_digit_def)
  have v2: "valid_groups (''1'', ''02'', Some ''03'')"
    by (simp add: valid_groups_def is_digit_def)
  from timestamp_rewrite_link[of "''12''" "''34''" "[]" "[]" "''https://x/y''" "''1''" "''02''" "''03''"]
    v1 v2
  show ?thesis
    by (simp add: int_of_digits_def digit_value_def fmt_02d_def str_nat.simps digit_char_def)
qed

text \<open>
  The claim as written expects \<open>[1:2:03](https://x/y?t=3723)\<close> for \<open>[1:02:03]\<close>; the code
  pads the minutes.
\<close>

theorem timestamp_rewrite_display_counterexample:
  "add_youtube_timestamps ''[1:02:03]'' ''https://x/y'' \<noteq> ''[1:2:03](https://x/y?t=3723)''"
  by (simp add: match_timestamp_def ts_after_g1_def ts_tail_def orelse_def is_digit_def
      replace_timestamp_def int_of_digits_def digit_value_def str_nat.simps digit_char_def Let_def
      fmt_02d_def)

section \<open>Facts about the database\<close>

lemma query_id_Some: "query_id d i = Some n \<Longrightarrow> n \<in> set d \<and> id_col n = i"
  by (auto simp: query_id_def find_Some_iff)

lemma query_id_commit_same:
  "query_id d i = Some n \<Longrightarrow> id_col n' = i \<Longrightarrow> query_id (commit n' d) i = Some n'"
  by (induction d) (auto simp: query_id_def commit_def)

lemma query_id_commit_other:
  "id_col n' \<noteq> i \<Longrightarrow> query_id (commit n' d) i = query_id d i"
  by (induction d) (auto simp: query_id_def commit_def)

lemma commits_append [simp]: "commits (a @ b) = commits a @ commits b"
  by (induction a rule: commits.induct) simp_all

lemma delays_append [simp]: "delays (a @ b) = delays a @ delays b"
  by (induction a rule: delays.induct) simp_all



section \<open>The Resume Planner\<close>




lemma query_pyid_Some: "query_pyid d v = Some n \<Longrightarrow> v = PInt (id_col n) \<and> n \<in> set d"
  by (cases v) (auto dest: query_id_Some)

text \<open>
  C9 (as amended). For every Job Record in status Failed, a resume request whose test of
  the media file answers first commits the record with the error cleared, and only then
  queues a task, in every branch of the planner. The status committed is Processing
  where the media file is on disk (the resume enters Synthesize or Transcribe) and
  Pending where it is not (the resume enters Acquire), and there the media location and
  the media id are cleared too. The second commit adds the task id and nothing else.
\<close>

theorem resume_clears_error:
  assumes "query_id d notes_id = Some n" and "status n = FAILED"
    and "audio_exists w n = Inr on_disk"
  shows "\<exists>m. snd (retry_note notes_id w tid d) =
               [Commit (commit (resumed on_disk n) d), Delay m,
                Commit (commit ((resumed on_disk n)\<lparr>task_id := Some tid\<rparr>)
                          (commit (resumed on_disk n) d))] \<and>
             query_id (commit (resumed on_disk n) d) notes_id = Some (resumed on_disk n) \<and>
             query_id (commit ((resumed on_disk n)\<lparr>task_id := Some tid\<rparr>)
                         (commit (resumed on_disk n) d)) notes_id
               = Some ((resumed on_disk n)\<lparr>task_id := Some tid\<rparr>)"
proof -
  from assms(1) have i: "id_col n = notes_id" by (simp add: query_id_Some)
  have r: "id_col (resumed on_disk n) = notes_id" by (simp add: resumed_def i)
  have q1: "query_id (commit (resumed on_disk n) d) notes_id = Some (resumed on_disk n)"
    by (rule query_id_commit_same[OF assms(1) r])
  have q2: "query_id (commit ((resumed on_disk n)\<lparr>task_id := Some tid\<rparr>)
                         (commit (resumed on_disk n) d)) notes_id
               = Some ((resumed on_disk n)\<lparr>task_id := Some tid\<rparr>)"
    by (rule query_id_commit_same[OF q1]) (simp add: r)
  have "\<exists>m. snd (retry_note notes_id w tid d) =
               [Commit (commit (resumed on_disk n) d), Delay m,
                Commit (commit ((resumed on_disk n)\<lparr>task_id := Some tid\<rparr>)
                          (commit (resumed on_disk n) d))]"
    using assms by (simp add: retry_note_def Let_def resumed_def)
  with q1 q2 show ?thesis by simp
qed

theorem resume_clears_error_witness:
  "(\<exists>m. snd (retry_note 1 (disk_with [''media/u1.mp3'']) ''t2'' [lost_media]) =
           [Commit [lost_media\<lparr>status := PROCESSING, error := None\<rparr>], Delay m,
            Commit [lost_media\<lparr>status := PROCESSING, error := None, task_id := Some ''t2''\<rparr>]]) \<and>
   (\<exists>m. snd (retry_note 1 (disk_with []) ''t2'' [lost_media]) =
           [Commit [lost_media\<lparr>status := PENDING, error := None, audio_path := None,
                                audio_id := None\<rparr>], Delay m,
            Commit [lost_media\<lparr>status := PENDING, error := None, audio_path := None,
                                audio_id := None, task_id := Some ''t2''\<rparr>]])"
proof -
  have q: "query_id [lost_media] 1 = Some lost_media"
    by (simp add: query_id_def lost_media_def)
  have f: "status lost_media = FAILED" by (simp add: lost_media_def)
  have a: "audio_exists (disk_with [''media/u1.mp3'']) lost_media = Inr True"
    by (simp add: audio_exists_def lost_media_def disk_with_def)
  have b: "audio_exists (disk_with []) lost_media = Inr False"
    by (simp add: audio_exists_def lost_media_def disk_with_def)
  have c: "commit (resumed on_disk lost_media) [lost_media] = [resumed on_disk lost_media]"
    "commit ((resumed on_disk lost_media)\<lparr>task_id := Some ''t2''\<rparr>) [resumed on_disk lost_media]
       = [(resumed on_disk lost_media)\<lparr>task_id := Some ''t2''\<rparr>]" for on_disk
    by (simp_all add: commit_def resumed_def)
  from resume_clears_error[OF q f a, of "''t2''"] obtain m where
    "snd (retry_note 1 (disk_with [''media/u1.mp3'']) ''t2'' [lost_media]) =
       [Commit [resumed True lost_media], Delay m,
        Commit [(resumed True lost_media)\<lparr>task_id := Some ''t2''\<rparr>]]"
    unfolding c by (elim exE conjE)
  then have 1: "\<exists>m. snd (retry_note 1 (disk_with [''media/u1.mp3'']) ''t2'' [lost_media]) =
           [Commit [lost_media\<lparr>status := PROCESSING, error := None\<rparr>], Delay m,
            Commit [lost_media\<lparr>status := PROCESSING, error := None, task_id := Some ''t2''\<rparr>]]"
    by (simp add: resumed_def)
  from resume_clears_error[OF q f b, of "''t2''"] obtain m where
    "snd (retry_note 1 (disk_with []) ''t2'' [lost_media]) =
       [Commit [resumed False lost_media], Delay m,
        Commit [(resumed False lost_media)\<lparr>task_id := Some ''t2''\<rparr>]]"
    unfolding c by (elim exE conjE)
  then have 2: "\<exists>m. snd (retry_note 1 (disk_with []) ''t2'' [lost_media]) =
           [Commit [lost_media\<lparr>status := PENDING, error := None, audio_path := None,
                                audio_id := None\<rparr>], Delay m,
            Commit [lost_media\<lparr>status := PENDING, error := None, audio_path := None,
                                audio_id := None, task_id := Some ''t2''\<rparr>]]"
    by (simp add: resumed_def)
  from 1 2 show ?thesis by (rule conjI)
qed

text \<open>
  The claim as written has the status Processing in every branch: in the Acquire branch
  both commits of the endpoint leave it Pending.
\<close>

theorem resume_acquire_counterexample:
  "status lost_media = FAILED \<and>
   map (map status) (commits (snd (retry_note 1 (disk_with []) ''t2'' [lost_media])))
     = [[PENDING], [PENDING]]"
  by (simp add: retry_note_def Let_def query_id_def audio_exists_def lost_media_def
      disk_with_def commit_def create_audio_transcription_chain_def)

section \<open>Transcribe without its media file\<close>

text \<open>
  C6 (as amended). For every run of Transcribe on an existing Job Record where the media
  location is absent or the test of the media file answers that no file is there, the
  task returns (it does not raise, so nothing is retried), the record is committed with
  status Failed, and the output has no transcription and, under \<open>error\<close>, the error entry
  of the stage input (not null unless that entry is) or else \<open>Audio file not found\<close>.
  Where the test itself raises, the task raises the same exception, its handler runs,
  and the run is retried as long as retries are left.
\<close>

theorem transcribe_missing_audio:
  assumes "query_pyid d (dict_get audio_data ''note_id'') = Some n"
  shows "(media_absent w audio_data \<longrightarrow>
            translate_audio_to_text retries w audio_data d =
              (Returned [(''note_id'', dict_get audio_data ''note_id''),
                         (''audio_id'', dict_get audio_data ''audio_id''),
                         (''transcription'', PNone),
                         (''error'', dict_get_default audio_data ''error''
                                       (PStr ''Audio file not found''))],
               [commit (n\<lparr>status := FAILED\<rparr>) d]) \<and>
            query_pyid (commit (n\<lparr>status := FAILED\<rparr>) d) (dict_get audio_data ''note_id'')
              = Some (n\<lparr>status := FAILED\<rparr>) \<and>
            retry_of m (fst (translate_audio_to_text retries w audio_data d)) = None \<and>
            (map_of audio_data ''error'' \<noteq> Some PNone \<longrightarrow>
               dict_get_default audio_data ''error'' (PStr ''Audio file not found'') \<noteq> PNone)) \<and>
         (media_test_raises w audio_data e \<longrightarrow>
            translate_audio_to_text retries w audio_data d =
              (Raised e,
               on_exception ''Transcription'' retries e (dict_get audio_data ''note_id'') d) \<and>
            (request_retries m < 2 \<longrightarrow>
               retry_of m (fst (translate_audio_to_text retries w audio_data d))
                 = Some (m\<lparr>request_retries := Suc (request_retries m)\<rparr>)))"
proof -
  from query_pyid_Some[OF assms(1)] obtain i where i: "dict_get audio_data ''note_id'' = PInt i"
    "id_col n = i" by auto
  from assms(1) i have q: "query_id d i = Some n" by simp
  have miss: "audio_missing w (dict_get audio_data ''audio_path'') = Inr True"
    if "media_absent w audio_data"
    using that by (cases "dict_get audio_data ''audio_path''") (auto simp: media_absent_def)
  have raises: "audio_missing w (dict_get audio_data ''audio_path'') = Inl e"
    if "media_test_raises w audio_data e"
    using that by (cases "dict_get audio_data ''audio_path''") (auto simp: media_test_raises_def)
  have run: "translate_audio_to_text retries w audio_data d =
              (Returned [(''note_id'', dict_get audio_data ''note_id''),
                         (''audio_id'', dict_get audio_data ''audio_id''),
                         (''transcription'', PNone),
                         (''error'', dict_get_default audio_data ''error''
                                       (PStr ''Audio file not found''))],
               [commit (n\<lparr>status := FAILED\<rparr>) d])"
    if "media_absent w audio_data"
    using assms(1) miss[OF that] by (simp add: translate_audio_to_text_def Let_def)
  have run': "translate_audio_to_text retries w audio_data d =
              (Raised e,
               on_exception ''Transcription'' retries e (dict_get audio_data ''note_id'') d)"
    if "media_test_raises w audio_data e"
    using assms(1) raises[OF that] by (simp add: translate_audio_to_text_def Let_def)
  show ?thesis
  proof (intro conjI impI)
    show "translate_audio_to_text retries w audio_data d =
              (Returned [(''note_id'', dict_get audio_data ''note_id''),
                         (''audio_id'', dict_get audio_data ''audio_id''),
                         (''transcription'', PNone),
                         (''error'', dict_get_default audio_data ''error''
                                       (PStr ''Audio file not found''))],
               [commit (n\<lparr>status := FAILED\<rparr>) d])"
      if "media_absent w audio_data"
      by (rule run[OF that])
    show "query_pyid (commit (n\<lparr>status := FAILED\<rparr>) d) (dict_get audio_data ''note_id'')
              = Some (n\<lparr>status := FAILED\<rparr>)"
      using q i by (simp add: query_id_commit_same)
    show "retry_of m (fst (translate_audio_to_text retries w audio_data d)) = None"
      if "media_absent w audio_data"
      by (simp add: run[OF that] retry_of_def)
    show "dict_get_default audio_data ''error'' (PStr ''Audio file not found'') \<noteq> PNone"
      if "map_of audio_data ''error'' \<noteq> Some PNone"
      using that by (auto simp: dict_get_default_def split: option.splits)
    show "translate_audio_to_text retries w audio_data d =
              (Raised e,
               on_exception ''Transcription'' retries e (dict_get audio_data ''note_id'') d)"
      if "media_test_raises w audio_data e"
      by (rule run'[OF that])
    show "retry_of m (fst (translate_audio_to_text retries w audio_data d))
                 = Some (m\<lparr>request_retries := Suc (request_retries m)\<rparr>)"
      if "media_test_raises w audio_data e" and "request_retries m < 2"
      using that(2) by (simp add: run'[OF that(1)] retry_of_def max_retries_def)
  qed
qed

theorem transcribe_missing_audio_witness:
  "translate_audio_to_text 0 (disk_with []) resume_audio_data [crashed_after_acquire] =
     (Returned [(''note_id'', PInt 1), (''audio_id'', PStr ''u1''), (''transcription'', PNone),
                (''error'', PStr ''Audio file not found'')],
      [[crashed_after_acquire\<lparr>status := FAILED\<rparr>]]) \<and>
   retry_of \<lparr>call = Translate_audio_to_text resume_audio_data, request_retries = 0,
             links = [Generate_s]\<rparr>
     (fst (translate_audio_to_text 0 (disk_with []) resume_audio_data [crashed_after_acquire]))
     = None \<and>
   translate_audio_to_text 0 name_limit long_name_data [crashed_after_acquire] =
     (Raised ''[Errno 36] File name too long'', []) \<and>
   translate_audio_to_text 2 name_limit long_name_data [crashed_after_acquire] =
     (Raised ''[Errno 36] File name too long'',
      [[crashed_after_acquire
          \<lparr>status := FAILED,
             error := Some ''Transcription failed after 3 attempts: [Errno 36] File name too long''\<rparr>]])"
proof -
  let ?m = "\<lparr>call = Translate_audio_to_text resume_audio_data, request_retries = 0,
             links = [Generate_s]\<rparr>"
  let ?e = "''[Errno 36] File name too long''"
  have q: "query_pyid [crashed_after_acquire] (dict_get resume_audio_data ''note_id'')
             = Some crashed_after_acquire"
    by (simp add: dict_get_def resume_audio_data_def query_id_def crashed_after_acquire_def)
  have q': "query_pyid [crashed_after_acquire] (dict_get long_name_data ''note_id'')
             = Some crashed_after_acquire"
    by (simp add: dict_get_def long_name_data_def query_id_def crashed_after_acquire_def)
  have a: "media_absent (disk_with []) resume_audio_data"
    by (simp add: media_absent_def dict_get_def resume_audio_data_def disk_with_def)
  have r: "media_test_raises name_limit long_name_data ?e"
    by (simp add: media_test_raises_def dict_get_def long_name_data_def name_limit_def)
  have three: "str_nat 3 = ''3''"
    by (simp add: str_nat.simps digit_char_def)
  note absent = transcribe_missing_audio[OF q, where w = "disk_with []" and retries = 0
      and m = ?m, THEN conjunct1, THEN mp, OF a]
  note raised = transcribe_missing_audio[OF q', where w = name_limit and e = ?e
      and retries = 0, THEN conjunct2, THEN mp, OF r, THEN conjunct1]
  note raised_last = transcribe_missing_audio[OF q', where w = name_limit and e = ?e
      and retries = 2, THEN conjunct2, THEN mp, OF r, THEN conjunct1]
  have 1: "translate_audio_to_text 0 (disk_with []) resume_audio_data [crashed_after_acquire] =
     (Returned [(''note_id'', PInt 1), (''audio_id'', PStr ''u1''), (''transcription'', PNone),
                (''error'', PStr ''Audio file not found'')],
      [[crashed_after_acquire\<lparr>status := FAILED\<rparr>]])"
    unfolding absent[THEN conjunct1]
    by (simp add: dict_get_def dict_get_default_def resume_audio_data_def commit_def
        crashed_after_acquire_def)
  have 2: "retry_of ?m
     (fst (translate_audio_to_text 0 (disk_with []) resume_audio_data [crashed_after_acquire]))
     = None"
    by (rule absent[THEN conjunct2, THEN conjunct2, THEN conjunct1])
  have 3: "translate_audio_to_text 0 name_limit long_name_data [crashed_after_acquire] =
     (Raised ?e, [])"
    unfolding raised by (simp add: on_exception_def)
  have 4: "translate_audio_to_text 2 name_limit long_name_data [crashed_after_acquire] =
     (Raised ?e,
      [[crashed_after_acquire
          \<lparr>status := FAILED,
             error := Some ''Transcription failed after 3 attempts: [Errno 36] File name too long''\<rparr>]])"
    unfolding raised_last
    by (simp add: on_exception_def dict_get_def long_name_data_def query_id_def commit_def
        crashed_after_acquire_def three)
  from 1 2 3 4 show ?thesis by (intro conjI)
qed

text \<open>
  The claim as written has no retry whenever the file is not on disk. No file has a name
  of 256 characters on a disk whose names hold 255, yet the test of that name raises, and
  the task with it: the run is queued again.
\<close>

theorem transcribe_retried_counterexample:
  "fst (translate_audio_to_text 0 name_limit long_name_data [crashed_after_acquire])
     = Raised ''[Errno 36] File name too long'' \<and>
   retry_of \<lparr>call = Translate_audio_to_text long_name_data, request_retries = 0, links = [Generate_s]\<rparr>
     (fst (translate_audio_to_text 0 name_limit long_name_data [crashed_after_acquire]))
     = Some \<lparr>call = Translate_audio_to_text long_name_data, request_retries = 1,
              links = [Generate_s]\<rparr>"
  by (simp add: translate_audio_to_text_def Let_def dict_get_def long_name_data_def
      query_id_def crashed_after_acquire_def name_limit_def on_exception_def retry_of_def
      max_retries_def)

text \<open>
  A stage input that holds \<open>None\<close> under \<open>error\<close> gets \<open>None\<close> back under \<open>error\<close>: the
  default of \<open>get\<close> is for a missing key.
\<close>

lemma transcribe_null_error_entry:
  "fst (translate_audio_to_text 0 (disk_with [])
          [(''note_id'', PInt 1), (''error'', PNone)] [crashed_after_acquire])
     = Returned [(''note_id'', PInt 1), (''audio_id'', PNone), (''transcription'', PNone),
                 (''error'', PNone)]"
  by (simp add: translate_audio_to_text_def Let_def dict_get_def dict_get_default_def
      query_id_def crashed_after_acquire_def)

section \<open>Failed and the error column\<close>

lemma list_all_commit: "list_all P d \<Longrightarrow> P n \<Longrightarrow> list_all P (commit n d)"
  by (induction d) (auto simp: commit_def)









section \<open>Retry exhaustion\<close>

lemma query_pyid_commit_same:
  assumes "query_pyid d v = Some n" and "id_col n' = id_col n"
  shows "query_pyid (commit n' d) v = Some n'"
proof -
  from query_pyid_Some[OF assms(1)] have v: "v = PInt (id_col n)" by simp
  with assms(1) have "query_id d (id_col n) = Some n" by simp
  from query_id_commit_same[OF this assms(2)] show ?thesis by (simp add: v)
qed

text \<open>A run whose stage fails before the last attempt: it raises and writes no failure.\<close>

lemma failing_run_early:
  assumes "stage_failure (call m) w = Some e" and "query_pyid d (job_of (call m)) = Some n"
    and "request_retries m < 2"
  shows "\<exists>cs n'. run_task m w d = (Raised e, cs) \<and> never_failed (job_of (call m)) cs \<and>
           query_pyid (state_after d cs) (job_of (call m)) = Some n'"
proof (cases "call m")
  case (Download_audio l i)
  with assms(2) have q: "query_pyid d (PInt i) = Some n" by simp
  have c: "query_pyid (commit (n\<lparr>status := PROCESSING\<rparr>) d) (PInt i) = Some (n\<lparr>status := PROCESSING\<rparr>)"
    by (rule query_pyid_commit_same[OF q]) simp
  from Download_audio assms q c show ?thesis
    by (simp add: run_task_def download_audio_def Let_def on_exception_def state_after_def
        never_failed_def)
next
  case (Translate_audio_to_text ad)
  with assms show ?thesis
    by (auto simp: run_task_def translate_audio_to_text_def Let_def on_exception_def
        state_after_def never_failed_def split: sum.splits bool.splits)
next
  case (Generate_study_notes td)
  with assms show ?thesis
    by (auto simp: run_task_def generate_study_notes_def Let_def on_exception_def
        state_after_def never_failed_def split: sum.splits pyval.splits if_splits)
qed

text \<open>The run with \<open>request.retries = 2\<close>: it raises and commits the failure.\<close>

lemma failing_run_last:
  assumes "stage_failure (call m) w = Some e" and "query_pyid d (job_of (call m)) = Some n"
    and "request_retries m = 2"
  shows "\<exists>cs n'. run_task m w d = (Raised e, cs) \<and> cs \<noteq> [] \<and>
           query_pyid (last cs) (job_of (call m)) = Some n' \<and> status n' = FAILED \<and>
           error n' = Some (stage_name (call m) @ '' failed after 3 attempts: '' @ e)"
proof -
  have three: "str_nat (Suc 2) = ''3''"
    by (simp add: str_nat.simps digit_char_def)
  show ?thesis
  proof (cases "call m")
    case (Download_audio l i)
    with assms(2) have q: "query_id d i = Some n" by simp
    then have i: "id_col n = i" by (simp add: query_id_Some)
    have c: "query_id (commit (n\<lparr>status := PROCESSING\<rparr>) d) i = Some (n\<lparr>status := PROCESSING\<rparr>)"
      by (rule query_id_commit_same[OF q]) (simp add: i)
    have c': "query_id (commit n' (commit (n\<lparr>status := PROCESSING\<rparr>) d)) i = Some n'"
      if "id_col n' = i" for n'
      by (rule query_id_commit_same[OF c that])
    from Download_audio assms q c three i show ?thesis
      by (simp add: run_task_def download_audio_def Let_def on_exception_def c')
  next
    case (Translate_audio_to_text ad)
    with assms three show ?thesis
      by (auto simp: run_task_def translate_audio_to_text_def Let_def on_exception_def
          query_pyid_commit_same split: sum.splits bool.splits)
  next
    case (Generate_study_notes td)
    with assms three show ?thesis
      by (auto simp: run_task_def generate_study_notes_def Let_def on_exception_def
          query_pyid_commit_same split: sum.splits pyval.splits if_splits)
  qed
qed

lemma autoretry_again:
  assumes "run_task m (ws (request_retries m)) d = (Raised e, cs)" and "request_retries m < 2"
  shows "autoretry m ws d =
           (Raised e, cs) # autoretry (m\<lparr>request_retries := Suc (request_retries m)\<rparr>) ws (state_after d cs)"
  using assms by (subst autoretry.simps) (simp add: retry_of_def max_retries_def)

lemma autoretry_give_up:
  assumes "run_task m (ws (request_retries m)) d = (Raised e, cs)" and "request_retries m = 2"
  shows "autoretry m ws d = [(Raised e, cs)]"
  using assms by (subst autoretry.simps) (simp add: retry_of_def max_retries_def)

text \<open>
  C2. For each of the three stage executors, run on an existing Job Record: when the
  stage fails with an exception on every attempt, the task is run exactly three times
  (the first run and two retries), no commit of the first two runs leaves the job in
  status Failed, and the third run commits status Failed with the error
  \<open><stage> failed after 3 attempts: <cause>\<close>, the cause being the exception of the
  third run.
\<close>

theorem retry_exhaustion:
  assumes "request_retries m = 0"
    and "query_pyid d (job_of (call m)) = Some n"
    and "\<forall>k. stage_failure (call m) (ws k) = Some (e k)"
  shows "\<exists>cs0 cs1 cs2 n'.
           autoretry m ws d = [(Raised (e 0), cs0), (Raised (e 1), cs1), (Raised (e 2), cs2)] \<and>
           never_failed (job_of (call m)) (cs0 @ cs1) \<and> cs2 \<noteq> [] \<and>
           query_pyid (last cs2) (job_of (call m)) = Some n' \<and> status n' = FAILED \<and>
           error n' = Some (stage_name (call m) @ '' failed after 3 attempts: '' @ e 2)"
proof -
  let ?i = "job_of (call m)"
  define m1 where "m1 = m\<lparr>request_retries := Suc (request_retries m)\<rparr>"
  define m2 where "m2 = m1\<lparr>request_retries := Suc (request_retries m1)\<rparr>"
  have rr: "request_retries m1 = 1" "request_retries m2 = 2" "call m1 = call m" "call m2 = call m"
    using assms(1) by (simp_all add: m1_def m2_def)
  from assms(3) have f: "stage_failure (call m) (ws 0) = Some (e 0)"
    "stage_failure (call m1) (ws 1) = Some (e 1)" "stage_failure (call m2) (ws 2) = Some (e 2)"
    by (simp_all add: rr)
  from failing_run_early[OF f(1) assms(2)] assms(1)
  obtain cs0 n0 where r0: "run_task m (ws 0) d = (Raised (e 0), cs0)"
    and nf0: "never_failed ?i cs0" and q0: "query_pyid (state_after d cs0) ?i = Some n0"
    by auto
  from failing_run_early[OF f(2), of "state_after d cs0" n0] q0 rr
  obtain cs1 n1 where r1: "run_task m1 (ws 1) (state_after d cs0) = (Raised (e 1), cs1)"
    and nf1: "never_failed ?i cs1"
    and q1: "query_pyid (state_after (state_after d cs0) cs1) ?i = Some n1"
    by auto
  from failing_run_last[OF f(3), of "state_after (state_after d cs0) cs1" n1] q1 rr
  obtain cs2 n2 where r2: "run_task m2 (ws 2) (state_after (state_after d cs0) cs1) = (Raised (e 2), cs2)"
    and ne: "cs2 \<noteq> []" and q2: "query_pyid (last cs2) ?i = Some n2"
    and s2: "status n2 = FAILED"
    and e2: "error n2 = Some (stage_name (call m) @ '' failed after 3 attempts: '' @ e 2)"
    by auto
  have a2: "autoretry m2 ws (state_after (state_after d cs0) cs1) = [(Raised (e 2), cs2)]"
    by (rule autoretry_give_up) (simp_all add: rr r2)
  have a1: "autoretry m1 ws (state_after d cs0) = [(Raised (e 1), cs1), (Raised (e 2), cs2)]"
    using autoretry_again[of m1 ws "state_after d cs0" "e 1" cs1] r1 rr a2
    by (simp add: m2_def)
  have a0: "autoretry m ws d = [(Raised (e 0), cs0), (Raised (e 1), cs1), (Raised (e 2), cs2)]"
    using autoretry_again[of m ws d "e 0" cs0] r0 assms(1) a1
    by (simp add: m1_def)
  from nf0 nf1 have "never_failed ?i (cs0 @ cs1)" by (simp add: never_failed_def)
  with a0 ne q2 s2 e2 show ?thesis by blast
qed

theorem retry_exhaustion_witness:
  "\<exists>cs0 cs1 cs2 n'.
     autoretry (create_audio_transcription_chain ''https://v/1'' 1) (\<lambda>k. offline)
       [crashed_after_acquire]
       = [(Raised ''boom'', cs0), (Raised ''boom'', cs1), (Raised ''boom'', cs2)] \<and>
     never_failed (PInt 1) (cs0 @ cs1) \<and> cs2 \<noteq> [] \<and>
     query_pyid (last cs2) (PInt 1) = Some n' \<and> status n' = FAILED \<and>
     error n' = Some ''Download failed after 3 attempts: boom''"
proof -
  let ?m = "create_audio_transcription_chain ''https://v/1'' 1"
  have r: "request_retries ?m = 0" by (simp add: create_audio_transcription_chain_def)
  have c: "call ?m = Download_audio ''https://v/1'' 1"
    by (simp add: create_audio_transcription_chain_def)
  have q: "query_pyid [crashed_after_acquire] (job_of (call ?m)) = Some crashed_after_acquire"
    by (simp add: c query_id_def crashed_after_acquire_def)
  have f: "\<forall>k. stage_failure (call ?m) ((\<lambda>k. offline) k) = Some ((\<lambda>k. ''boom'') k)"
    by (simp add: c offline_def)
  from retry_exhaustion[OF r q f] show ?thesis by (simp add: c)
qed

section \<open>The canonical transcript format, written and read back\<close>







lemma not_digit_dot [simp]: "\<not> is_digit (CHR ''.'')"
  by (simp add: is_digit_def)

lemma not_digit_s [simp]: "\<not> is_digit (CHR ''s'')"
  by (simp add: is_digit_def)



subsection \<open>The greedy quantifiers where their first try succeeds\<close>






subsection \<open>The text after the closing bracket\<close>









subsection \<open>Lines joined and split again\<close>




lemma digit_not_newline: "is_digit c \<Longrightarrow> c \<noteq> CHR 0x0A"
  by (auto simp: is_digit_def)






subsection \<open>Rounding to hundredths\<close>






section \<open>The timestamp rewrite leaves the rest of the notes alone\<close>

lemma weave_Cons: "\<exists>r. weave (g # gs) ms = g @ r"
  by (cases ms) auto

lemma marker_free_Nil: "marker_free []"
  unfolding marker_free_def
proof
  assume "\<exists>pre m post. valid_groups m \<and> [] = pre @ marker_text m @ post"
  then obtain pre m post where e: "[] = pre @ marker_text m @ post" by blast
  obtain t where "marker_text m = CHR ''['' # t" using marker_text_open by blast
  with e show False by simp
qed

lemma marker_free_Cons:
  assumes "marker_free g" and "match_timestamp (c # g @ r) = None"
  shows "marker_free (c # g)"
  unfolding marker_free_def
proof
  assume "\<exists>pre m post. valid_groups m \<and> c # g = pre @ marker_text m @ post"
  then obtain pre m post where v: "valid_groups m" and e: "c # g = pre @ marker_text m @ post"
    by blast
  show False
  proof (cases pre)
    case Nil
    with e have "c # g @ r = marker_text m @ (post @ r)" by simp
    with match_timestamp_complete[OF v, of "post @ r"] assms(2) show False by simp
  next
    case (Cons p pre')
    with e have "g = pre' @ marker_text m @ post" by simp
    with v have ex: "\<exists>pre m post. valid_groups m \<and> g = pre @ marker_text m @ post" by blast
    from assms(1) have "\<not> (\<exists>pre m post. valid_groups m \<and> g = pre @ marker_text m @ post)"
      unfolding marker_free_def .
    from this ex show False by (rule notE)
  qed
qed

lemma rewrite_decomposition:
  "\<exists>gaps ms. length gaps = Suc (length ms) \<and> list_all valid_groups ms \<and>
      list_all marker_free gaps \<and> s = weave gaps (map marker_text ms) \<and>
      add_youtube_timestamps s url = weave gaps (map (replace_timestamp url) ms)"
proof (induction s url rule: add_youtube_timestamps.induct)
  case (1 url)
  have "length [[]] = Suc (length ([] :: ts_groups list)) \<and> list_all valid_groups [] \<and>
      list_all marker_free [[]] \<and> [] = weave [[]] (map marker_text []) \<and>
      add_youtube_timestamps [] url = weave [[]] (map (replace_timestamp url) [])"
    by (simp add: marker_free_Nil)
  then show ?case by blast
next
  case (2 c cs url)
  show ?case
  proof (cases "match_timestamp (c # cs)")
    case None
    from 2(1)[OF None] obtain gaps ms where
      l: "length gaps = Suc (length ms)" and v: "list_all valid_groups ms"
      and f: "list_all marker_free gaps" and s: "cs = weave gaps (map marker_text ms)"
      and a: "add_youtube_timestamps cs url = weave gaps (map (replace_timestamp url) ms)"
      by blast
    from l obtain g gs where gaps: "gaps = g # gs" by (cases gaps) auto
    from weave_Cons[of g gs "map marker_text ms"] s gaps obtain r where r: "cs = g @ r" by auto
    from f gaps have "marker_free g" by simp
    from marker_free_Cons[OF this, of c r] None r have fc: "marker_free (c # g)" by simp
    have w: "weave ((c # g) # gs) xs = c # weave (g # gs) xs" for xs
      by (cases xs) auto
    have "length ((c # g) # gs) = Suc (length ms) \<and> list_all valid_groups ms \<and>
      list_all marker_free ((c # g) # gs) \<and> c # cs = weave ((c # g) # gs) (map marker_text ms) \<and>
      add_youtube_timestamps (c # cs) url = weave ((c # g) # gs) (map (replace_timestamp url) ms)"
      using l v f fc s a None gaps by (simp add: w)
    then show ?thesis by blast
  next
    case (Some x)
    obtain m rest where x: "x = (m, rest)" by (cases x)
    from Some x have S: "match_timestamp (c # cs) = Some (m, rest)" by simp
    from match_timestamp_sound[OF S] have vm: "valid_groups m" and e: "c # cs = marker_text m @ rest"
      by auto
    from 2(2)[OF S refl] obtain gaps ms where
      l: "length gaps = Suc (length ms)" and v: "list_all valid_groups ms"
      and f: "list_all marker_free gaps" and s: "rest = weave gaps (map marker_text ms)"
      and a: "add_youtube_timestamps rest url = weave gaps (map (replace_timestamp url) ms)"
      by blast
    from l obtain g gs where gaps: "gaps = g # gs" by (cases gaps) auto
    have r: "add_youtube_timestamps (c # cs) url
               = replace_timestamp url m @ add_youtube_timestamps rest url"
      using S by simp
    have w1: "weave ([] # gaps) (map marker_text (m # ms)) = marker_text m @ rest"
      by (simp add: s)
    have w2: "weave ([] # gaps) (map (replace_timestamp url) (m # ms))
                = replace_timestamp url m @ add_youtube_timestamps rest url"
      by (simp add: a)
    have "length ([] # gaps) = Suc (length (m # ms)) \<and> list_all valid_groups (m # ms) \<and>
      list_all marker_free ([] # gaps) \<and> c # cs = weave ([] # gaps) (map marker_text (m # ms)) \<and>
      add_youtube_timestamps (c # cs) url = weave ([] # gaps) (map (replace_timestamp url) (m # ms))"
      unfolding w1 w2 r using l v f vm e by (simp add: marker_free_Nil)
    then show ?thesis by blast
  qed
qed

text \<open>
  C10. The rewrite is a transformation of the text alone that keeps its frame: every
  notes text is a sequence of gaps holding no marker, with markers between them, and the
  rewritten text is the same gaps, unchanged and in order, with each marker replaced by
  its link. When the task dict has no source URL (absent, None or empty) the notes are
  stored and returned as the provider gave them.
\<close>

theorem timestamp_rewrite_frame:
  "(\<exists>gaps ms. length gaps = Suc (length ms) \<and> list_all valid_groups ms \<and>
      list_all marker_free gaps \<and> s = weave gaps (map marker_text ms) \<and>
      add_youtube_timestamps s url = weave gaps (map (replace_timestamp url) ms)) \<and>
   (query_pyid d (dict_get td ''note_id'') = Some n \<longrightarrow>
    dict_get td ''transcription'' = PStr tr \<longrightarrow> tr \<noteq> [] \<longrightarrow>
    gemini_text w = Inr s \<longrightarrow> \<not> truthy (dict_get td ''youtube_link'') \<longrightarrow>
      generate_study_notes r w td d =
        (Returned [(''note_id'', dict_get td ''note_id''), (''study_notes'', PStr s),
                   (''youtube_link'', dict_get td ''youtube_link'')],
         [commit (n\<lparr>note_col := Some s, status := COMPLETED\<rparr>) d]))"
proof (intro conjI impI)
  show "\<exists>gaps ms. length gaps = Suc (length ms) \<and> list_all valid_groups ms \<and>
      list_all marker_free gaps \<and> s = weave gaps (map marker_text ms) \<and>
      add_youtube_timestamps s url = weave gaps (map (replace_timestamp url) ms)"
    by (rule rewrite_decomposition)
next
  assume "query_pyid d (dict_get td ''note_id'') = Some n"
    and "dict_get td ''transcription'' = PStr tr" and "tr \<noteq> []"
    and "gemini_text w = Inr s" and "\<not> truthy (dict_get td ''youtube_link'')"
  then show "generate_study_notes r w td d =
        (Returned [(''note_id'', dict_get td ''note_id''), (''study_notes'', PStr s),
                   (''youtube_link'', dict_get td ''youtube_link'')],
         [commit (n\<lparr>note_col := Some s, status := COMPLETED\<rparr>) d])"
    by (simp add: generate_study_notes_def Let_def)
qed

theorem timestamp_rewrite_frame_witness:
  "(\<exists>gaps ms. length gaps = Suc (length ms) \<and> list_all valid_groups ms \<and>
      list_all marker_free gaps \<and> ''See [1:02].'' = weave gaps (map marker_text ms) \<and>
      add_youtube_timestamps ''See [1:02].'' ''https://x/y''
        = weave gaps (map (replace_timestamp ''https://x/y'') ms)) \<and>
   generate_study_notes 0 (answering ''See [1:02].'')
       [(''note_id'', PInt 1), (''transcription'', PStr ''[0.00s -> 1.50s] Hi'')] [lost_media] =
     (Returned [(''note_id'', PInt 1), (''study_notes'', PStr ''See [1:02].''),
                (''youtube_link'', PNone)],
      [[lost_media\<lparr>note_col := Some ''See [1:02].'', status := COMPLETED\<rparr>]])"
proof -
  let ?td = "[(''note_id'', PInt 1), (''transcription'', PStr ''[0.00s -> 1.50s] Hi'')]"
  have q: "query_pyid [lost_media] (dict_get ?td ''note_id'') = Some lost_media"
    by (simp add: dict_get_def query_id_def lost_media_def)
  have t: "dict_get ?td ''transcription'' = PStr ''[0.00s -> 1.50s] Hi''"
    by (simp add: dict_get_def)
  have g: "gemini_text (answering ''See [1:02].'') = Inr ''See [1:02].''"
    by (simp add: gemini_text_def answering_def)
  have y: "\<not> truthy (dict_get ?td ''youtube_link'')" by (simp add: dict_get_def)
  have c: "commit (lost_media\<lparr>note_col := Some ''See [1:02].'', status := COMPLETED\<rparr>) [lost_media]
             = [lost_media\<lparr>note_col := Some ''See [1:02].'', status := COMPLETED\<rparr>]"
    by (simp add: commit_def)
  from timestamp_rewrite_frame[of "''See [1:02].''" "''https://x/y''" "[lost_media]" ?td
      lost_media "''[0.00s -> 1.50s] Hi''" "answering ''See [1:02].''" 0] q t g y
  show ?thesis by (simp add: dict_get_def c del: add_youtube_timestamps.simps)
qed

section \<open>What holds of every committed state\<close>

lemma mono_refl: "mono d d"
  by (simp add: mono_def)

lemma mono_trans: "mono a b \<Longrightarrow> mono b c \<Longrightarrow> mono a c"
  by (simp add: mono_def)

lemma row_updateI:
  assumes "query_id d i = Some n" and "id_col n' = i" and "completed_ok n'"
    and "transcription n \<noteq> None \<longrightarrow> transcription n' \<noteq> None"
  shows "row_update d (commit n' d)"
  unfolding row_update_def using assms by blast

lemma length_commit [simp]: "length (commit n d) = length d"
  by (simp add: commit_def)

lemma row_update_good:
  assumes "good d" and "row_update d d'"
  shows "good d'"
proof -
  from assms(2) obtain n n' where d': "d' = commit n' d" and q: "query_id d (id_col n') = Some n"
    and c: "completed_ok n'" unfolding row_update_def by blast
  from q have "n \<in> set d" "id_col n = id_col n'" by (simp_all add: query_id_Some)
  with assms(1) have le: "id_col n' \<le> int (length d)"
    by (auto simp: good_def ids_fresh_def list_all_iff)
  have "list_all (\<lambda>n. id_col n \<le> int (length d)) (commit n' d)"
    using assms(1) le by (intro list_all_commit) (simp_all add: good_def ids_fresh_def)
  moreover have "list_all completed_ok (commit n' d)"
    using assms(1) c by (intro list_all_commit) (simp_all add: good_def)
  ultimately show ?thesis by (simp add: good_def ids_fresh_def d')
qed

lemma row_update_mono:
  assumes "row_update d d'"
  shows "mono d d'"
proof -
  from assms obtain n n' where d': "d' = commit n' d" and q: "query_id d (id_col n') = Some n"
    and t: "transcription n \<noteq> None \<longrightarrow> transcription n' \<noteq> None"
    unfolding row_update_def by blast
  have qq: "query_id d' i = (if i = id_col n' then Some n' else query_id d i)" for i
    using q by (simp add: d' query_id_commit_same query_id_commit_other)
  have "has_transcript d' v" if "has_transcript d v" for v
  proof (cases v)
    case (PInt i)
    with that q t show ?thesis by (auto simp: has_transcript_def qq split: option.splits)
  qed (use that in \<open>simp_all add: has_transcript_def\<close>)
  moreover have "query_id d' i \<noteq> None" if "query_id d i \<noteq> None" for i
    using that by (simp add: qq)
  ultimately show ?thesis by (simp add: mono_def)
qed

text \<open>The commit of a new row.\<close>

lemma query_id_append:
  "query_id (d @ [n]) i =
     (case query_id d i of Some x \<Rightarrow> Some x | None \<Rightarrow> if id_col n = i then Some n else None)"
  by (induction d) (auto simp: query_id_def)

lemma query_id_None: "query_id d i = None \<longleftrightarrow> (\<forall>n\<in>set d. id_col n \<noteq> i)"
  by (auto simp: query_id_def find_None_iff)

lemma new_note_good:
  assumes "good d"
  shows "good (d @ [new_note d url now])"
  using assms
  by (auto simp: good_def ids_fresh_def list_all_iff new_note_def completed_ok_def)

lemma new_note_mono: "mono d (d @ [new_note d url now])"
proof -
  have q: "query_id (d @ [new_note d url now]) i = Some x" if "query_id d i = Some x" for i x
    using that by (simp add: query_id_append)
  have "has_transcript (d @ [new_note d url now]) v" if "has_transcript d v" for v
  proof (cases v)
    case (PInt i)
    with that obtain x where "query_id d i = Some x" "transcription x \<noteq> None"
      by (auto simp: has_transcript_def split: option.splits)
    with q[of i x] PInt show ?thesis by (simp add: has_transcript_def)
  qed (use that in \<open>simp_all add: has_transcript_def\<close>)
  moreover have "query_id (d @ [new_note d url now]) i \<noteq> None" if "query_id d i \<noteq> None" for i
    using that q[of i] by auto
  ultimately show ?thesis by (simp add: mono_def)
qed

lemma new_note_query:
  assumes "good d"
  shows "query_id (d @ [new_note d url now]) (int (length d) + 1) = Some (new_note d url now)"
proof -
  have "query_id d (int (length d) + 1) = None"
    using assms by (fastforce simp: query_id_None good_def ids_fresh_def list_all_iff)
  then show ?thesis by (simp add: query_id_append new_note_def)
qed

lemma chain_good:
  "good d \<Longrightarrow> chain d cs \<Longrightarrow> list_all good cs \<and> mono d (state_after d cs)"
proof (induction cs arbitrary: d)
  case Nil
  then show ?case by (simp add: state_after_def mono_refl)
next
  case (Cons c cs)
  from Cons.prems have gc: "good c" and mc: "mono d c"
    by (auto intro: row_update_good row_update_mono new_note_good new_note_mono)
  from Cons.prems have "chain c cs" by simp
  from Cons.IH[OF gc this] have "list_all good cs" "mono c (state_after c cs)" by simp_all
  with gc mc show ?case
    by (auto simp: state_after_def intro: mono_trans)
qed

lemma chain_append: "chain d cs \<Longrightarrow> chain (state_after d cs) cs' \<Longrightarrow> chain d (cs @ cs')"
  by (induction cs arbitrary: d) (simp_all add: state_after_def)

lemma chain_one:
  assumes "query_id d i = Some n" and "id_col n1 = i" and "completed_ok n1"
    and "transcription n \<noteq> None \<longrightarrow> transcription n1 \<noteq> None"
  shows "chain d [commit n1 d]"
  using row_updateI[OF assms] by simp

lemma chain_two:
  assumes "query_id d i = Some n" and "id_col n1 = i" and "completed_ok n1"
    and "transcription n \<noteq> None \<longrightarrow> transcription n1 \<noteq> None"
    and "id_col n2 = i" and "completed_ok n2"
    and "transcription n1 \<noteq> None \<longrightarrow> transcription n2 \<noteq> None"
  shows "chain d [commit n1 d, commit n2 (commit n1 d)]"
proof -
  have q1: "query_id (commit n1 d) i = Some n1"
    by (rule query_id_commit_same[OF assms(1,2)])
  from row_updateI[OF assms(1-4)] row_updateI[OF q1 assms(5-7)] show ?thesis by simp
qed

lemma not_completed_ok: "status n \<noteq> COMPLETED \<Longrightarrow> completed_ok n"
  by (simp add: completed_ok_def)

lemma chain_on_exception: "chain d (on_exception prefix r e v d)"
proof (cases "r \<ge> 2")
  case False
  then show ?thesis by (simp add: on_exception_def)
next
  case True
  show ?thesis
  proof (cases "query_pyid d v")
    case None
    with True show ?thesis by (simp add: on_exception_def)
  next
    case (Some n)
    from query_pyid_Some[OF Some] have v: "v = PInt (id_col n)" by simp
    with Some have q: "query_id d (id_col n) = Some n" by simp
    let ?n' = "n\<lparr>status := FAILED,
                  error := Some (prefix @ '' failed after '' @ str_nat (r + 1) @ '' attempts: '' @ e)\<rparr>"
    have "chain d [commit ?n' d]"
      by (rule chain_one[OF q]) (simp_all add: not_completed_ok)
    with True Some show ?thesis by (simp add: on_exception_def)
  qed
qed

lemma chain_download_audio: "chain d (snd (download_audio r w l i d))"
proof (cases "query_id d i")
  case None
  then show ?thesis by (simp add: download_audio_def)
next
  case (Some n)
  then have i: "id_col n = i" by (simp add: query_id_Some)
  let ?n1 = "n\<lparr>status := PROCESSING\<rparr>"
  show ?thesis
  proof (cases "ydl_download w")
    case None
    let ?n2 = "?n1\<lparr>audio_id := Some (uuid4 w), audio_path := Some (''media/'' @ uuid4 w @ ''.mp3''),
                  status := PROCESSING\<rparr>"
    have "chain d [commit ?n1 d, commit ?n2 (commit ?n1 d)]"
      by (rule chain_two[OF Some]) (simp_all add: i not_completed_ok)
    with Some None show ?thesis by (simp add: download_audio_def Let_def)
  next
    case (Some e)
    have "chain d [commit ?n1 d]"
      by (rule chain_one[OF \<open>query_id d i = Some n\<close>]) (simp_all add: i not_completed_ok)
    from chain_append[OF this, of "on_exception ''Download'' r e (PInt i) (commit ?n1 d)"]
      chain_on_exception[of "commit ?n1 d" "''Download''" r e "PInt i"]
    have "chain d (commit ?n1 d # on_exception ''Download'' r e (PInt i) (commit ?n1 d))"
      by (simp add: state_after_def)
    with Some \<open>query_id d i = Some n\<close> show ?thesis by (simp add: download_audio_def Let_def)
  qed
qed

lemma chain_translate_audio_to_text: "chain d (snd (translate_audio_to_text r w ad d))"
proof (cases "query_pyid d (dict_get ad ''note_id'')")
  case None
  then show ?thesis by (simp add: translate_audio_to_text_def Let_def)
next
  case (Some n)
  from query_pyid_Some[OF Some] have v: "dict_get ad ''note_id'' = PInt (id_col n)" by simp
  with Some have q: "query_id d (id_col n) = Some n" by simp
  have c1: "chain d [commit (n\<lparr>status := FAILED\<rparr>) d]"
    by (rule chain_one[OF q]) (simp_all add: not_completed_ok)
  have c2: "chain d [commit (n\<lparr>transcription := Some t, status := PROCESSING\<rparr>) d]" for t
    by (rule chain_one[OF q]) (simp_all add: not_completed_ok)
  show ?thesis
    using Some c1 c2 chain_on_exception[of d "''Transcription''" r _ "dict_get ad ''note_id''"]
    by (simp add: translate_audio_to_text_def Let_def split: sum.splits bool.splits)
qed

lemma add_youtube_timestamps_not_Nil: "s \<noteq> [] \<Longrightarrow> add_youtube_timestamps s url \<noteq> []"
  by (cases s) (auto simp: replace_timestamp_def Let_def split: option.splits prod.splits)

lemma gemini_text_not_Nil: "gemini_text w = Inr s \<Longrightarrow> s \<noteq> []"
  by (auto simp: gemini_text_def split: sum.splits if_splits option.splits)

lemma chain_generate_study_notes:
  assumes "truthy (dict_get td ''transcription'') \<longrightarrow> has_transcript d (dict_get td ''note_id'')"
  shows "chain d (snd (generate_study_notes r w td d))"
proof (cases "query_pyid d (dict_get td ''note_id'')")
  case None
  then show ?thesis by (simp add: generate_study_notes_def Let_def)
next
  case (Some n)
  from query_pyid_Some[OF Some] have v: "dict_get td ''note_id'' = PInt (id_col n)" by simp
  with Some have q: "query_id d (id_col n) = Some n" by simp
  have c1: "chain d [commit (n\<lparr>status := FAILED, error := x\<rparr>) d]" for x
    by (rule chain_one[OF q]) (simp_all add: not_completed_ok)
  show ?thesis
  proof (cases "truthy (dict_get td ''transcription'')")
    case False
    with Some c1 show ?thesis by (simp add: generate_study_notes_def Let_def)
  next
    case True
    with assms Some have tr: "transcription n \<noteq> None" by (simp add: has_transcript_def)
    have c2: "chain d [commit (n\<lparr>note_col := Some s, status := COMPLETED\<rparr>) d]" if "s \<noteq> []" for s
      by (rule chain_one[OF q]) (use that tr in \<open>simp_all add: completed_ok_def\<close>)
    show ?thesis
    proof (cases "dict_get td ''transcription''")
      case (PStr t)
      show ?thesis
      proof (cases "gemini_text w")
        case (Inl e)
        with Some True PStr chain_on_exception[of d "''Study notes generation''" r e "dict_get td ''note_id''"]
        show ?thesis by (simp add: generate_study_notes_def Let_def)
      next
        case (Inr s)
        from gemini_text_not_Nil[OF Inr] have s: "s \<noteq> []" .
        with Some True PStr Inr c2[OF s] c2[OF add_youtube_timestamps_not_Nil[OF s]]
        show ?thesis by (simp add: generate_study_notes_def Let_def)
      qed
    qed (use Some True in \<open>simp_all add: generate_study_notes_def Let_def\<close>)
  qed
qed

lemma payload_ok_mono: "mono d d' \<Longrightarrow> payload_ok d m \<Longrightarrow> payload_ok d' m"
  by (auto simp: payload_ok_def mono_def split: call.splits)

lemma state_after_append: "state_after d (a @ b) = state_after (state_after d a) b"
  by (cases b rule: rev_cases) (simp_all add: state_after_def)

lemma first_created_desc_in: "first_created_desc xs = Some e \<Longrightarrow> e \<in> set xs"
  by (induction xs arbitrary: e) (auto split: option.splits if_splits)

lemma request_ok_Nil: "request_ok d []"
  by (simp add: request_ok_def)

lemma create_notes_from_youtube_ok:
  assumes "good d"
  shows "request_ok d (snd (create_notes_from_youtube url now tid d))"
proof -
  let ?n = "new_note d url now"
  let ?d1 = "d @ [?n]"
  have q: "query_id ?d1 (id_col ?n) = Some ?n"
    using new_note_query[OF assms, of url now] by (simp add: new_note_def)
  have queued: "request_ok d [Commit ?d1, Delay (create_audio_transcription_chain url (id_col ?n)),
                              Commit (commit (?n\<lparr>task_id := Some tid\<rparr>) ?d1)]"
  proof -
    have "row_update ?d1 (commit (?n\<lparr>task_id := Some tid\<rparr>) ?d1)"
      by (rule row_updateI[OF q]) (simp_all add: new_note_def completed_ok_def)
    then show ?thesis
      by (auto simp: request_ok_def payload_ok_def create_audio_transcription_chain_def)
  qed
  show ?thesis
  proof (cases "first_created_desc
              (filter (\<lambda>n. youtube_url n = url \<and> status n = COMPLETED \<and> note_col n \<noteq> None) d)")
    case None
    with queued show ?thesis by (simp add: create_notes_from_youtube_def Let_def)
  next
    case (Some e)
    show ?thesis
    proof (cases "truthy_col (note_col e)")
      case False
      with Some queued show ?thesis by (simp add: create_notes_from_youtube_def Let_def)
    next
      case True
      from first_created_desc_in[OF Some] have e: "e \<in> set d" "status e = COMPLETED" by auto
      with assms have "completed_ok e" by (auto simp: good_def list_all_iff)
      with e(2) have te: "transcription e \<noteq> None" by (simp add: completed_ok_def)
      let ?n' = "?n\<lparr>transcription := transcription e, note_col := note_col e, status := COMPLETED,
                     audio_path := audio_path e, audio_id := audio_id e\<rparr>"
      have "row_update ?d1 (commit ?n' ?d1)"
        by (rule row_updateI[OF q]) (use True te in \<open>simp_all add: new_note_def completed_ok_def\<close>)
      then have "request_ok d [Commit ?d1, Commit (commit ?n' ?d1)]"
        by (auto simp: request_ok_def)
      with Some True show ?thesis by (simp add: create_notes_from_youtube_def Let_def)
    qed
  qed
qed

lemma has_transcript_commit:
  assumes "query_id d i = Some n" and "id_col n' = i" and "transcription n' \<noteq> None"
  shows "has_transcript (commit n' d) (PInt i)"
  using query_id_commit_same[OF assms(1,2)] assms(3) by (simp add: has_transcript_def)

lemma resume_ok:
  assumes "query_id d i = Some n" and "id_col n1 = i" and "status n1 \<noteq> COMPLETED"
    and "transcription n1 = transcription n" and "payload_ok (commit (n1\<lparr>task_id := Some tid\<rparr>) (commit n1 d)) m"
  shows "request_ok d [Commit (commit n1 d), Delay m, Commit (commit (n1\<lparr>task_id := Some tid\<rparr>) (commit n1 d))]"
proof -
  have "chain d [commit n1 d, commit (n1\<lparr>task_id := Some tid\<rparr>) (commit n1 d)]"
    by (rule chain_two[OF assms(1,2)]) (use assms(2-4) in \<open>simp_all add: not_completed_ok\<close>)
  with assms(5) show ?thesis by (simp add: request_ok_def state_after_def)
qed

lemma retry_note_ok: "request_ok d (snd (retry_note i w tid d))"
proof (cases "query_id d i")
  case None
  then show ?thesis by (simp add: retry_note_def request_ok_Nil)
next
  case (Some n)
  then have i: "id_col n = i" by (simp add: query_id_Some)
  let ?td = "[(''note_id'', PInt (id_col n)), (''transcription'', of_column (transcription n)),
              (''youtube_link'', PStr (youtube_url n))]"
  let ?n1 = "n\<lparr>status := PROCESSING, error := None\<rparr>"
  let ?n3 = "n\<lparr>status := PENDING, error := None, audio_path := None, audio_id := None\<rparr>"
  have q1: "query_id (commit ?n1 d) i = Some ?n1"
    by (rule query_id_commit_same[OF Some]) (simp add: i)
  have p: "payload_ok (commit (?n1\<lparr>task_id := Some tid\<rparr>) (commit ?n1 d))
             \<lparr>call = Generate_study_notes ?td, request_retries = 0, links = []\<rparr>"
    if "transcription n \<noteq> None"
    using that has_transcript_commit[OF q1, of "?n1\<lparr>task_id := Some tid\<rparr>"]
    by (simp add: payload_ok_def dict_get_def i)
  have a: "request_ok d [Commit (commit ?n1 d),
             Delay \<lparr>call = Generate_study_notes ?td, request_retries = 0, links = []\<rparr>,
             Commit (commit (?n1\<lparr>task_id := Some tid\<rparr>) (commit ?n1 d))]"
    if "transcription n \<noteq> None"
    by (rule resume_ok[OF Some]) (use p[OF that] i in simp_all)
  have b: "request_ok d [Commit (commit ?n1 d),
             Delay \<lparr>call = Translate_audio_to_text ad, request_retries = 0, links = [Generate_s]\<rparr>,
             Commit (commit (?n1\<lparr>task_id := Some tid\<rparr>) (commit ?n1 d))]" for ad
    by (rule resume_ok[OF Some]) (simp_all add: i payload_ok_def)
  have c: "request_ok d [Commit (commit ?n3 d),
             Delay (create_audio_transcription_chain (youtube_url n) (id_col n)),
             Commit (commit (?n3\<lparr>task_id := Some tid\<rparr>) (commit ?n3 d))]"
    by (rule resume_ok[OF Some])
       (simp_all add: i payload_ok_def create_audio_transcription_chain_def)
  show ?thesis
    using Some a b c by (simp add: retry_note_def Let_def request_ok_Nil split: sum.splits)
qed

lemma regenerate_one_ok:
  assumes "query_id d (id_col n) = Some x" and "transcription n \<noteq> None"
  shows "request_ok d (regenerate_one tid n d)"
proof -
  let ?n1 = "n\<lparr>status := FAILED, error := None\<rparr>"
  let ?n2 = "?n1\<lparr>task_id := Some tid, status := PROCESSING\<rparr>"
  have ch: "chain d [commit ?n1 d, commit ?n2 (commit ?n1 d)]"
    by (rule chain_two[OF assms(1)]) (use assms(2) in \<open>simp_all add: not_completed_ok\<close>)
  have q1: "query_id (commit ?n1 d) (id_col n) = Some ?n1"
    by (rule query_id_commit_same[OF assms(1)]) simp
  have "has_transcript (commit ?n2 (commit ?n1 d)) (PInt (id_col n))"
    by (rule has_transcript_commit[OF q1]) (use assms(2) in simp_all)
  with ch show ?thesis
    by (simp add: regenerate_one_def Let_def request_ok_def state_after_def payload_ok_def
        dict_get_def)
qed

lemma regenerate_note_ok: "request_ok d (snd (regenerate_note i tid d))"
proof (cases "query_id d i")
  case None
  then show ?thesis by (simp add: regenerate_note_def request_ok_Nil)
next
  case (Some n)
  then have i: "id_col n = i" by (simp add: query_id_Some)
  have "request_ok d (regenerate_one tid n d)" if "truthy_col (transcription n)"
  proof -
    from that have "transcription n \<noteq> None" by (cases "transcription n") auto
    with Some i show ?thesis by (intro regenerate_one_ok[of d n n]) simp_all
  qed
  with Some show ?thesis by (simp add: regenerate_note_def request_ok_Nil)
qed

lemma request_ok_append:
  assumes "good d" and "request_ok d a" and "request_ok (state_after d (commits a)) b"
  shows "request_ok d (a @ b)"
proof -
  let ?d1 = "state_after d (commits a)"
  from assms(2,3) have ca: "chain d (commits a)" and cb: "chain ?d1 (commits b)"
    by (simp_all add: request_ok_def)
  from chain_good[OF assms(1) ca] have g1: "list_all good (commits a)" by simp
  have "good ?d1"
    using assms(1) g1 by (cases "commits a" rule: rev_cases) (simp_all add: state_after_def)
  from chain_good[OF this cb] have m: "mono ?d1 (state_after ?d1 (commits b))" by simp
  from assms(2) have "list_all (payload_ok ?d1) (delays a)" by (simp add: request_ok_def)
  with m have "list_all (payload_ok (state_after ?d1 (commits b))) (delays a)"
    by (auto simp: list_all_iff intro: payload_ok_mono)
  with assms(3) chain_append[OF ca cb] show ?thesis
    by (simp add: request_ok_def state_after_append)
qed

lemma good_state_after:
  assumes "good d" and "chain d cs"
  shows "good (state_after d cs)"
  using assms(1) chain_good[OF assms]
  by (cases cs rule: rev_cases) (simp_all add: state_after_def)

lemma regenerate_loop_ok:
  assumes "good d" and "list_all (\<lambda>n. query_id d (id_col n) \<noteq> None \<and> transcription n \<noteq> None) ns"
  shows "request_ok d (regenerate_loop tids ns d)"
  using assms
proof (induction ns arbitrary: d)
  case Nil
  then show ?case by (simp add: request_ok_Nil)
next
  case (Cons n ns)
  let ?es = "regenerate_one (tids (id_col n)) n d"
  let ?d1 = "state_after d (commits ?es)"
  from Cons.prems(2) obtain x where x: "query_id d (id_col n) = Some x" and t: "transcription n \<noteq> None"
    by auto
  from regenerate_one_ok[OF x t] have one: "request_ok d ?es" .
  then have ch: "chain d (commits ?es)" by (simp add: request_ok_def)
  from chain_good[OF Cons.prems(1) ch] have m: "mono d ?d1" by simp
  have g1: "good ?d1" by (rule good_state_after[OF Cons.prems(1) ch])
  from Cons.prems(2) m
  have "list_all (\<lambda>n. query_id ?d1 (id_col n) \<noteq> None \<and> transcription n \<noteq> None) ns"
    by (auto simp: list_all_iff mono_def)
  from Cons.IH[OF g1 this] have "request_ok ?d1 (regenerate_loop tids ns ?d1)" .
  from request_ok_append[OF Cons.prems(1) one this] show ?case by (simp add: Let_def)
qed

lemma regenerate_all_notes_ok:
  assumes "good d"
  shows "request_ok d (snd (regenerate_all_notes tids d))"
proof -
  have "list_all (\<lambda>n. query_id d (id_col n) \<noteq> None \<and> transcription n \<noteq> None)
          (filter (\<lambda>n. transcription n \<noteq> None \<and> note_col n = None) d)"
    by (auto simp: list_all_iff query_id_None)
  from regenerate_loop_ok[OF assms this] show ?thesis
    by (simp add: regenerate_all_notes_def Let_def)
qed

text \<open>What a task hands to the next link of its chain.\<close>

lemma download_audio_result:
  assumes "download_audio r w l i d = (Returned v, cs)"
  shows "dict_get v ''transcription'' = PNone"
  using assms
  by (auto simp: download_audio_def Let_def dict_get_def split: option.splits)

lemma generate_study_notes_result:
  assumes "generate_study_notes r w td d = (Returned v, cs)"
  shows "dict_get v ''transcription'' = PNone"
  using assms
  by (auto simp: generate_study_notes_def Let_def dict_get_def
      split: option.splits if_splits pyval.splits sum.splits)

lemma translate_audio_to_text_result:
  assumes "translate_audio_to_text r w ad d = (Returned v, cs)"
    and "truthy (dict_get v ''transcription'')"
  shows "has_transcript (state_after d cs) (dict_get v ''note_id'')"
proof (cases "query_pyid d (dict_get ad ''note_id'')")
  case None
  with assms show ?thesis
    by (auto simp: translate_audio_to_text_def Let_def dict_get_def)
next
  case (Some n)
  from query_pyid_Some[OF Some] have v: "dict_get ad ''note_id'' = PInt (id_col n)" by simp
  with Some have q: "query_id d (id_col n) = Some n" by simp
  have h: "has_transcript (commit (n\<lparr>transcription := Some t, status := PROCESSING\<rparr>) d)
             (PInt (id_col n))" for t
    by (rule has_transcript_commit[OF q]) simp_all
  from assms Some show ?thesis
    by (auto simp: translate_audio_to_text_def Let_def state_after_def h v
        split: sum.splits bool.splits)
       (simp_all add: dict_get_def h)
qed

lemma next_payload_ok:
  assumes "run_task m w d = (Returned v, cs)"
  shows "payload_ok (state_after d cs) \<lparr>call = apply_link l v, request_retries = 0, links = ls\<rparr>"
proof (cases l)
  case Translate_s
  then show ?thesis by (simp add: payload_ok_def)
next
  case Generate_s
  have "has_transcript (state_after d cs) (dict_get v ''note_id'')"
    if "truthy (dict_get v ''transcription'')"
  proof (cases "call m")
    case (Download_audio l i)
    with assms download_audio_result[of "request_retries m" w l i d v cs] that show ?thesis
      by (simp add: run_task_def)
  next
    case (Translate_audio_to_text ad)
    with assms translate_audio_to_text_result[of "request_retries m" w ad d v cs] that show ?thesis
      by (simp add: run_task_def)
  next
    case (Generate_study_notes td)
    with assms generate_study_notes_result[of "request_retries m" w td d v cs] that show ?thesis
      by (simp add: run_task_def)
  qed
  with Generate_s show ?thesis by (simp add: payload_ok_def)
qed

lemma chain_run_task:
  assumes "payload_ok d m"
  shows "chain d (snd (run_task m w d))"
proof (cases "call m")
  case (Download_audio l i)
  then show ?thesis by (simp add: run_task_def chain_download_audio)
next
  case (Translate_audio_to_text ad)
  then show ?thesis by (simp add: run_task_def chain_translate_audio_to_text)
next
  case (Generate_study_notes td)
  with assms show ?thesis
    by (simp add: run_task_def payload_ok_def chain_generate_study_notes)
qed

lemma after_request_inv:
  assumes "inv s" and "request_ok (sys_db s) es"
  shows "chain (sys_db s) (fst (after_request es s)) \<and> inv (snd (after_request es s))"
proof -
  let ?d = "sys_db s" and ?d' = "state_after (sys_db s) (commits es)"
  from assms have g: "good ?d" and ch: "chain ?d (commits es)"
    and new: "list_all (payload_ok ?d') (delays es)"
    and old: "list_all (payload_ok ?d) (queue s)"
    by (simp_all add: inv_def request_ok_def)
  from chain_good[OF g ch] have "mono ?d ?d'" by simp
  with old have "list_all (payload_ok ?d') (queue s)"
    by (auto simp: list_all_iff intro: payload_ok_mono)
  with new good_state_after[OF g ch] ch show ?thesis
    by (simp add: after_request_def inv_def)
qed

lemma exec_inv:
  assumes "inv s"
  shows "chain (sys_db s) (fst (exec e s)) \<and> inv (snd (exec e s))"
proof (cases e)
  case (Submit url now tid)
  from assms have "good (sys_db s)" by (simp add: inv_def)
  from after_request_inv[OF assms create_notes_from_youtube_ok[OF this]] Submit
  show ?thesis by simp
next
  case (Retry i w tid)
  from after_request_inv[OF assms retry_note_ok] Retry show ?thesis by simp
next
  case (Regenerate_note i tid)
  from after_request_inv[OF assms regenerate_note_ok] Regenerate_note show ?thesis by simp
next
  case (Regenerate_all tids)
  from assms have "good (sys_db s)" by (simp add: inv_def)
  from after_request_inv[OF assms regenerate_all_notes_ok[OF this]] Regenerate_all
  show ?thesis by simp
next
  case (Work k w)
  show ?thesis
  proof (cases "k < length (queue s)")
    case False
    with Work assms show ?thesis by simp
  next
    case True
    let ?d = "sys_db s" and ?m = "queue s ! k"
    obtain r cs where run: "run_task ?m w ?d = (r, cs)" by (cases "run_task ?m w ?d")
    let ?d' = "state_after ?d cs"
    from assms have g: "good ?d" and old: "list_all (payload_ok ?d) (queue s)"
      by (simp_all add: inv_def)
    from old True have pm: "payload_ok ?d ?m" by (simp add: list_all_iff)
    from chain_run_task[OF pm, of w] run have ch: "chain ?d cs" by simp
    from chain_good[OF g ch] have m: "mono ?d ?d'" by simp
    have keep: "payload_ok ?d' x" if "x \<in> set (queue s)" for x
      using that old m by (auto simp: list_all_iff intro: payload_ok_mono)
    have rest: "list_all (payload_ok ?d') (take k (queue s) @ drop (Suc k) (queue s))"
      using keep by (auto simp: list_all_iff dest: in_set_takeD in_set_dropD)
    have again: "list_all (payload_ok ?d') (case retry_of ?m r of None \<Rightarrow> [] | Some m' \<Rightarrow> [m'])"
    proof (cases "retry_of ?m r")
      case (Some m')
      then have "call m' = call ?m"
        by (auto simp: retry_of_def split: task_result.splits if_splits)
      moreover from True have "payload_ok ?d' ?m" by (intro keep) simp
      ultimately show ?thesis using Some by (simp add: payload_ok_def)
    qed simp
    have nxt: "list_all (payload_ok ?d') (case next_of ?m r of None \<Rightarrow> [] | Some m' \<Rightarrow> [m'])"
    proof (cases r)
      case (Returned v)
      with run next_payload_ok[of ?m w ?d v cs] show ?thesis
        by (auto simp: next_of_def split: list.splits)
    qed (simp add: next_of_def)
    from Work True run ch good_state_after[OF g ch] rest again nxt show ?thesis
      by (simp add: inv_def Let_def)
  qed
qed

lemma reachable_inv: "reachable s \<Longrightarrow> inv s"
proof (induction rule: reachable.induct)
  case reachable_initial
  show ?case by (simp add: inv_def initial_def good_def ids_fresh_def)
next
  case (reachable_exec s e)
  with exec_inv[of s e] show ?case by simp
qed

lemma persisted_good: "persisted d \<Longrightarrow> good d"
proof (induction rule: persisted.induct)
  case (persisted_state s)
  from reachable_inv[OF this] show ?case by (simp add: inv_def)
next
  case (persisted_commit s d e)
  from reachable_inv[OF persisted_commit(1)] have i: "inv s" .
  then have g: "good (sys_db s)" by (simp add: inv_def)
  from exec_inv[OF i, of e] have "chain (sys_db s) (fst (exec e s))" by simp
  from chain_good[OF g this] persisted_commit(2) show ?case by (simp add: list_all_iff)
qed

section \<open>Completed records\<close>

lemmas eval_defs =
  run_def initial_def after_request_def state_after_def
  create_notes_from_youtube_def new_note_def create_audio_transcription_chain_def
  retry_note_def audio_exists_def regenerate_note_def regenerate_one_def
  run_task_def download_audio_def translate_audio_to_text_def generate_study_notes_def
  on_exception_def gemini_text_def transcription_of_def transcription_line_def fixed_2_def round_half_even_def
  newline_def retry_of_def next_of_def max_retries_def
  query_id_def commit_def dict_get_def dict_get_default_def Let_def
  str_int_def str_nat.simps digit_char_def
  online_def offline_def
  match_timestamp_def ts_after_g1_def ts_tail_def orelse_def is_digit_def
  replace_timestamp_def int_of_digits_def digit_value_def fmt_02d_def

lemma reachable_foldl: "reachable s \<Longrightarrow> reachable (foldl (\<lambda>s e. snd (exec e s)) s es)"
  by (induction es arbitrary: s) (simp_all add: reachable_exec)

lemma reachable_run: "reachable (run es)"
  unfolding run_def by (rule reachable_foldl[OF reachable_initial])

lemma run_job_completes: "run job_completes = \<lparr>sys_db = [completed_job], queue = []\<rparr>"
  by (simp add: job_completes_def eval_defs completed_job_def)

lemma run_job_loses_audio: "sys_db (run job_loses_audio) = [completed_without_audio]"
  by (simp add: job_loses_audio_def eval_defs completed_without_audio_def)

text \<open>
  C3 (as amended). In every committed state of the database, a record in status
  Completed has notes and a transcript; every operation that commits a record (the three
  stage executors, the cache-hit clone, the retry and regenerate endpoints) keeps that.
  The acquired media location of a completed record may be null.
\<close>

theorem completed_has_notes_and_transcript:
  assumes "persisted d"
  shows "\<forall>n\<in>set d. status n = COMPLETED \<longrightarrow> note_col n \<noteq> None \<and> transcription n \<noteq> None"
proof -
  from persisted_good[OF assms] have "list_all completed_ok d" by (simp add: good_def)
  moreover have "x \<noteq> None" if "truthy_col x" for x
    using that by (cases x) auto
  ultimately show ?thesis
    by (simp add: list_all_iff completed_ok_def)
qed

theorem completed_has_notes_and_transcript_witness:
  "note_col completed_job \<noteq> None \<and> transcription completed_job \<noteq> None"
proof -
  have "persisted (sys_db (run job_completes))"
    by (rule persisted_state[OF reachable_run])
  then have p: "persisted [completed_job]" by (simp add: run_job_completes)
  have c: "status completed_job = COMPLETED" by (simp add: completed_job_def)
  from completed_has_notes_and_transcript[OF p] c show ?thesis by simp
qed

text \<open>
  The claim as written also wants the acquired media location of a completed record
  non-null. The job that lost its media file is completed without one.
\<close>

theorem completed_without_audio_counterexample:
  "persisted [completed_without_audio] \<and> status completed_without_audio = COMPLETED \<and>
   audio_path completed_without_audio = None"
proof -
  have "persisted (sys_db (run job_loses_audio))"
    by (rule persisted_state[OF reachable_run])
  then have "persisted [completed_without_audio]" by (simp add: run_job_loses_audio)
  then show ?thesis by (simp add: completed_without_audio_def)
qed

section \<open>The cache hit\<close>

lemma first_created_desc_max:
  assumes "xs \<noteq> []"
  shows "\<exists>c. first_created_desc xs = Some c \<and> c \<in> set xs \<and> (\<forall>x\<in>set xs. created_at x \<le> created_at c)"
  using assms
proof (induction xs)
  case Nil
  then show ?case by simp
next
  case (Cons n ns)
  show ?case
  proof (cases ns)
    case Nil
    then show ?thesis by simp
  next
    case (Cons a list)
    with Cons.IH obtain m where m: "first_created_desc ns = Some m" "m \<in> set ns"
      "\<forall>x\<in>set ns. created_at x \<le> created_at m" by auto
    then show ?thesis by (cases "created_at n < created_at m") auto
  qed
qed

lemma commit_new_row:
  assumes "ids_fresh d" and "id_col n = int (length d) + 1" and "id_col n' = id_col n"
  shows "commit n' (d @ [n]) = d @ [n']"
proof -
  from assms(1,2) have "\<forall>r\<in>set d. id_col r \<noteq> id_col n"
    by (fastforce simp: ids_fresh_def list_all_iff)
  then have "map (\<lambda>r. if id_col r = id_col n' then n' else r) d = d"
    by (simp add: assms(3) map_idI)
  then show ?thesis by (simp add: commit_def assms(3))
qed

text \<open>
  C7. In every state the system reaches: when some record has the submitted source
  reference, status Completed and notes, the intake creates a new record, copies
  transcript, notes, media location and media id from the most recently created such
  record, commits the new record with status Completed, queues no task, and answers
  Completed.
\<close>

theorem cache_hit_clones:
  assumes "reachable s"
    and "e \<in> set (sys_db s)" and "youtube_url e = url" and "status e = COMPLETED"
    and "note_col e \<noteq> None"
  shows "\<exists>c. c \<in> set (sys_db s) \<and> youtube_url c = url \<and> status c = COMPLETED \<and>
           note_col c \<noteq> None \<and>
           (\<forall>x\<in>set (sys_db s). youtube_url x = url \<and> status x = COMPLETED \<and> note_col x \<noteq> None
              \<longrightarrow> created_at x \<le> created_at c) \<and>
           create_notes_from_youtube url now tid (sys_db s) =
             (ImportResponseModel COMPLETED (str_int (int (length (sys_db s)) + 1)),
              [Commit (sys_db s @ [new_note (sys_db s) url now]),
               Commit (sys_db s @
                 [(new_note (sys_db s) url now)
                    \<lparr>transcription := transcription c, note_col := note_col c,
                     status := COMPLETED, audio_path := audio_path c, audio_id := audio_id c\<rparr>])])"
proof -
  let ?d = "sys_db s"
  let ?P = "\<lambda>n. youtube_url n = url \<and> status n = COMPLETED \<and> note_col n \<noteq> None"
  from reachable_inv[OF assms(1)] have g: "good ?d" by (simp add: inv_def)
  from assms(2-5) have "filter ?P ?d \<noteq> []" by (auto simp: filter_empty_conv)
  from first_created_desc_max[OF this] obtain c where
    f: "first_created_desc (filter ?P ?d) = Some c" and c: "c \<in> set ?d" "?P c"
    and mx: "\<forall>x\<in>set (filter ?P ?d). created_at x \<le> created_at c" by auto
  from g c have "completed_ok c" by (auto simp: good_def list_all_iff)
  with c(2) have t: "truthy_col (note_col c)" by (simp add: completed_ok_def)
  let ?n = "new_note ?d url now"
  let ?n' = "?n\<lparr>transcription := transcription c, note_col := note_col c,
                 status := COMPLETED, audio_path := audio_path c, audio_id := audio_id c\<rparr>"
  from g have "ids_fresh ?d" by (simp add: good_def)
  then have cm: "commit ?n' (?d @ [?n]) = ?d @ [?n']"
    by (rule commit_new_row) (simp_all add: new_note_def)
  have "create_notes_from_youtube url now tid ?d =
          (ImportResponseModel COMPLETED (str_int (int (length ?d) + 1)),
           [Commit (?d @ [?n]), Commit (?d @ [?n'])])"
    using f t cm by (simp add: create_notes_from_youtube_def Let_def) (simp add: new_note_def)
  with c mx show ?thesis by (intro exI[of _ c]) auto
qed

theorem cache_hit_clones_witness:
  "create_notes_from_youtube ''https://v/1'' 9 ''t2'' [completed_job] =
     (ImportResponseModel COMPLETED ''2'',
      [Commit [completed_job, new_note [completed_job] ''https://v/1'' 9],
       Commit [completed_job,
               completed_job\<lparr>id_col := 2, task_id := None, created_at := 9\<rparr>]])"
proof -
  have r: "reachable (run job_completes)" by (rule reachable_run)
  have d: "sys_db (run job_completes) = [completed_job]" by (simp add: run_job_completes)
  have e: "completed_job \<in> set (sys_db (run job_completes))" by (simp add: d)
  have u: "youtube_url completed_job = ''https://v/1''" by (simp add: completed_job_def)
  have c: "status completed_job = COMPLETED" by (simp add: completed_job_def)
  have n: "note_col completed_job \<noteq> None" by (simp add: completed_job_def)
  from cache_hit_clones[OF r e u c n, of 9 "''t2''"] obtain x where
    x: "x \<in> set (sys_db (run job_completes))"
    and eq: "create_notes_from_youtube ''https://v/1'' 9 ''t2'' (sys_db (run job_completes)) =
       (ImportResponseModel COMPLETED (str_int (int (length (sys_db (run job_completes))) + 1)),
        [Commit (sys_db (run job_completes) @ [new_note (sys_db (run job_completes)) ''https://v/1'' 9]),
         Commit (sys_db (run job_completes) @
           [(new_note (sys_db (run job_completes)) ''https://v/1'' 9)
              \<lparr>transcription := transcription x, note_col := note_col x,
               status := COMPLETED, audio_path := audio_path x, audio_id := audio_id x\<rparr>])])"
    by blast
  from x have "x = completed_job" by (simp add: d)
  with eq show ?thesis
    unfolding d
    by (simp add: new_note_def completed_job_def str_int_def str_nat.simps digit_char_def)
qed

end
